theory Spec2Isabelle
  imports Complex_Main "HOL-Library.Multiset"
begin

section \<open>Data model (services/database/models.ts)\<close>

text \<open>
  The two enums of \<^verbatim>\<open>types.ts\<close>. The recalculation puts every participation whose team
  is not \<^verbatim>\<open>Team.Titans\<close> on the Atlantean side, the validation filters on both values.
\<close>

datatype Team = Titans | Atlanteans

datatype GameLength = Quick | Long

text \<open>
  JavaScript numbers that hold ratings are modelled as \<^typ>\<open>real\<close>, counters and levels as
  integers, dates as their millisecond time stamp (\<^verbatim>\<open>getTime()\<close>). An optional field
  (\<^verbatim>\<open>mu?: number\<close>) is an \<^typ>\<open>'a option\<close>, \<^const>\<open>None\<close> being \<^verbatim>\<open>undefined\<close>.
\<close>

record DBPlayer =
  p_id :: string
  p_name :: string
  totalGames :: nat
  wins :: nat
  losses :: nat
  elo :: int
  mu :: "real option"
  sigma :: "real option"
  ordinal :: "real option"
  lastPlayed :: int
  dateCreated :: int
  p_deviceId :: "string option"
  p_level :: "int option"

record DBMatch =
  m_id :: string
  date :: int
  winningTeam :: Team
  gameLength :: GameLength
  doubleLanes :: bool
  titanPlayers :: nat
  atlanteanPlayers :: nat
  m_deviceId :: "string option"

record DBMatchPlayer =
  mp_id :: string
  matchId :: string
  playerId :: string
  team :: Team
  heroId :: int
  heroName :: string
  heroRoles :: "string list"
  kills :: "int option"
  deaths :: "int option"
  assists :: "int option"
  goldEarned :: "int option"
  minionKills :: "int option"
  mp_level :: "int option"
  mp_deviceId :: "string option"

datatype Severity = SevError | SevWarning

record ValidationError =
  field :: string
  ve_playerId :: "string option"
  message :: string
  severity :: Severity

record ValidationResult =
  isValid :: bool
  errors :: "ValidationError list"
  warnings :: "ValidationError list"

section \<open>Text helpers: template literals and \<^verbatim>\<open>Array.prototype.join\<close>\<close>

definition digit_char :: "nat \<Rightarrow> char" where
  "digit_char d = ''0123456789'' ! d"

fun show_nat :: "nat \<Rightarrow> string" where
  "show_nat n = (if n < 10 then [digit_char n] else show_nat (n div 10) @ [digit_char (n mod 10)])"

definition show_int :: "int \<Rightarrow> string" where
  "show_int i = (if i < 0 then CHR ''-'' # show_nat (nat (- i)) else show_nat (nat i))"

fun join :: "string \<Rightarrow> string list \<Rightarrow> string" where
  "join sep [] = []"
| "join sep [x] = x"
| "join sep (x # y # ys) = x @ sep @ join sep (y # ys)"

text \<open>
  Modelled from the spec: the string values of the enum \<^verbatim>\<open>GameLength\<close>, declared in
  \<^verbatim>\<open>types.ts\<close>, which is not among the sources; the spec names the two lengths
  \<^verbatim>\<open>Quick | Long\<close>. Only the text of the kill-count warning uses them.
\<close>

definition GameLength_text :: "GameLength \<Rightarrow> string" where
  "GameLength_text g = (case g of Quick \<Rightarrow> ''Quick'' | Long \<Rightarrow> ''Long'')"

section \<open>Validation (services/firebase/FirebaseValidationService.ts)\<close>

text \<open>
  \<^verbatim>\<open>heroUsage\<close> is a \<^verbatim>\<open>Map<number, string[]>\<close>: a key is added with an empty array the
  first time a hero is seen, then the player id is pushed. A JavaScript Map iterates in
  insertion order, so it is an association list in first-occurrence order.
\<close>

fun heroUsage_push :: "(int \<times> string list) list \<Rightarrow> int \<Rightarrow> string \<Rightarrow> (int \<times> string list) list" where
  "heroUsage_push [] h p = [(h, [p])]"
| "heroUsage_push ((k, ps) # rest) h p =
     (if k = h then (k, ps @ [p]) # rest else (k, ps) # heroUsage_push rest h p)"

definition heroUsage :: "DBMatchPlayer list \<Rightarrow> (int \<times> string list) list" where
  "heroUsage playersData =
     foldl (\<lambda>m player. heroUsage_push m (heroId player) (playerId player)) [] playersData"

definition heroError :: "int \<Rightarrow> string list \<Rightarrow> ValidationError" where
  "heroError h playerIds =
     \<lparr>field = ''hero'', ve_playerId = None,
      message = ''Hero ID '' @ show_int h @ '' is assigned to multiple players: ''
                @ join '', '' playerIds,
      severity = SevError\<rparr>"

definition heroErrors :: "DBMatchPlayer list \<Rightarrow> ValidationError list" where
  "heroErrors playersData =
     concat (map (\<lambda>(h, playerIds). if length playerIds > 1 then [heroError h playerIds] else [])
                 (heroUsage playersData))"

definition teamErrors :: "DBMatchPlayer list \<Rightarrow> ValidationError list" where
  "teamErrors playersData =
     (if length (filter (\<lambda>p. team p = Titans) playersData) = 0
      then [\<lparr>field = ''teams'', ve_playerId = None,
             message = ''Titans team cannot be empty'', severity = SevError\<rparr>] else [])
     @ (if length (filter (\<lambda>p. team p = Atlanteans) playersData) = 0
        then [\<lparr>field = ''teams'', ve_playerId = None,
               message = ''Atlanteans team cannot be empty'', severity = SevError\<rparr>] else [])"

definition sizeWarnings :: "DBMatchPlayer list \<Rightarrow> ValidationError list" where
  "sizeWarnings playersData =
     (let t = int (length (filter (\<lambda>p. team p = Titans) playersData));
          a = int (length (filter (\<lambda>p. team p = Atlanteans) playersData));
          sizeDifference = \<bar>t - a\<bar>
      in if sizeDifference > 1
         then [\<lparr>field = ''teams'', ve_playerId = None,
                message = ''Team sizes are unbalanced (Titans: '' @ show_int t
                          @ '', Atlanteans: '' @ show_int a @ '')'',
                severity = SevWarning\<rparr>]
         else [])"

text \<open>The statistics checks of one participation: its warnings, then its errors.\<close>

definition playerWarnings :: "GameLength \<Rightarrow> DBMatchPlayer \<Rightarrow> ValidationError list" where
  "playerWarnings gl player =
     (case kills player of
        Some k \<Rightarrow>
          if k \<noteq> 0 \<and> k > 0 \<and> k > (if gl = Quick then 10 else 20)
          then [\<lparr>field = ''kills'', ve_playerId = Some (playerId player),
                 message = show_int k @ '' kills seems high for '' @ GameLength_text gl @ '' match'',
                 severity = SevWarning\<rparr>]
          else []
      | None \<Rightarrow> [])
     @ (case deaths player of
          Some d \<Rightarrow>
            if d \<noteq> 0 \<and> d > 15
            then [\<lparr>field = ''deaths'', ve_playerId = Some (playerId player),
                   message = show_int d @ '' deaths seems very high'', severity = SevWarning\<rparr>]
            else []
        | None \<Rightarrow> [])"

definition negativeError :: "DBMatchPlayer \<Rightarrow> string \<times> int option \<Rightarrow> ValidationError list" where
  "negativeError player fv =
     (case snd fv of
        Some v \<Rightarrow>
          if v < 0
          then [\<lparr>field = fst fv, ve_playerId = Some (playerId player),
                 message = fst fv @ '' cannot be negative'', severity = SevError\<rparr>]
          else []
      | None \<Rightarrow> [])"

definition playerErrors :: "DBMatchPlayer \<Rightarrow> ValidationError list" where
  "playerErrors player =
     concat (map (negativeError player)
        [(''kills'', kills player), (''deaths'', deaths player), (''assists'', assists player),
         (''goldEarned'', goldEarned player), (''minionKills'', minionKills player)])
     @ (case mp_level player of
          Some l \<Rightarrow>
            if l < 1 \<or> l > 10
            then [\<lparr>field = ''level'', ve_playerId = Some (playerId player),
                   message = ''Level must be between 1 and 10'', severity = SevError\<rparr>]
            else []
        | None \<Rightarrow> [])"

definition dateWarnings :: "int \<Rightarrow> int \<Rightarrow> DBMatch \<Rightarrow> ValidationError list" where
  "dateWarnings now oneYearAgo matchData =
     (if date matchData > now
      then [\<lparr>field = ''date'', ve_playerId = None,
             message = ''Match date is in the future'', severity = SevWarning\<rparr>] else [])
     @ (if date matchData < oneYearAgo
        then [\<lparr>field = ''date'', ve_playerId = None,
               message = ''Match date is more than a year old'', severity = SevWarning\<rparr>] else [])"

text \<open>
  \<^verbatim>\<open>validateMatchEdit\<close>. The two readings of the clock (\<^verbatim>\<open>new Date()\<close>, and a second
  \<^verbatim>\<open>new Date()\<close> moved back one calendar year by \<^verbatim>\<open>setFullYear\<close>) are inputs.
\<close>

definition validateMatchEdit :: "int \<Rightarrow> int \<Rightarrow> DBMatch \<Rightarrow> DBMatchPlayer list \<Rightarrow> ValidationResult" where
  "validateMatchEdit now oneYearAgo matchData playersData =
     (let errs = teamErrors playersData @ heroErrors playersData
                 @ concat (map playerErrors playersData);
          warns = sizeWarnings playersData
                  @ concat (map (playerWarnings (gameLength matchData)) playersData)
                  @ dateWarnings now oneYearAgo matchData
      in \<lparr>isValid = (length errs = 0), errors = errs, warnings = warns\<rparr>)"

text \<open>The player ids that \<^verbatim>\<open>heroUsage\<close> collects under one hero id, in input order.\<close>

definition playersOfHero :: "int \<Rightarrow> DBMatchPlayer list \<Rightarrow> string list" where
  "playersOfHero h ps = map playerId (filter (\<lambda>p. heroId p = h) ps)"

text \<open>The warnings of a result that concern the team sizes (field \<^verbatim>\<open>teams\<close>).\<close>

definition imbalanceWarnings :: "ValidationResult \<Rightarrow> ValidationError list" where
  "imbalanceWarnings r = filter (\<lambda>w. field w = ''teams'') (warnings r)"

subsection \<open>Sample inputs\<close>

definition sampleEntry :: "string \<Rightarrow> Team \<Rightarrow> int \<Rightarrow> DBMatchPlayer" where
  "sampleEntry pid t h =
     \<lparr>mp_id = [], matchId = [], playerId = pid, team = t, heroId = h, heroName = ''Hero'',
      heroRoles = [], kills = Some 3, deaths = Some 2, assists = None, goldEarned = None,
      minionKills = None, mp_level = Some 4, mp_deviceId = None\<rparr>"

definition sampleMatch :: DBMatch where
  "sampleMatch =
     \<lparr>m_id = [], date = 1000, winningTeam = Titans, gameLength = Quick, doubleLanes = False,
      titanPlayers = 3, atlanteanPlayers = 2, m_deviceId = None\<rparr>"

definition roster3v2 :: "DBMatchPlayer list" where
  "roster3v2 =
     [sampleEntry ''ann'' Titans 1, sampleEntry ''bob'' Titans 2, sampleEntry ''cy'' Titans 3,
      sampleEntry ''dee'' Atlanteans 4, sampleEntry ''eve'' Atlanteans 5]"

definition rosterSameHero :: "DBMatchPlayer list" where
  "rosterSameHero =
     [sampleEntry ''ann'' Titans 7, sampleEntry ''bob'' Titans 2,
      sampleEntry ''dee'' Atlanteans 7, sampleEntry ''eve'' Atlanteans 5]"

section \<open>Team balancing (services/database/MatchMakingService.ts, PlayerService.ts)\<close>

text \<open>
  \<^verbatim>\<open>Math.round\<close> rounds to the nearest integer, a tie going up: \<open>\<lfloor>x + 1/2\<rfloor>\<close>.
\<close>

definition js_round :: "real \<Rightarrow> int" where
  "js_round x = \<lfloor>x + 1 / 2\<rfloor>"

definition getDisplayRating :: "DBPlayer \<Rightarrow> int" where
  "getDisplayRating player =
     (case ordinal player of
        Some ord \<Rightarrow> js_round ((ord + 25) * 40 + 200)
      | None \<Rightarrow> elo player)"

text \<open>
  \<^verbatim>\<open>Array.prototype.sort(compare)\<close> is stable; with a comparator that is the difference of two
  keys its result is the one a stable insertion sort gives: an element is placed before the
  first element it does not compare greater than, elements being inserted from the right.
\<close>

fun insertSorted :: "('a \<Rightarrow> 'a \<Rightarrow> int) \<Rightarrow> 'a \<Rightarrow> 'a list \<Rightarrow> 'a list" where
  "insertSorted compare x [] = [x]"
| "insertSorted compare x (y # ys) =
     (if compare x y \<le> 0 then x # y # ys else y # insertSorted compare x ys)"

definition js_sort :: "('a \<Rightarrow> 'a \<Rightarrow> int) \<Rightarrow> 'a list \<Rightarrow> 'a list" where
  "js_sort compare xs = foldr (insertSorted compare) xs []"

record TeamSplit =
  team1 :: "string list"
  team2 :: "string list"

text \<open>
  One round of the \<^verbatim>\<open>forEach\<close>: both team sums are recomputed with \<^verbatim>\<open>reduce\<close>, the player
  is pushed to \<^verbatim>\<open>team1\<close> when its sum is not the greater one.
\<close>

definition assignPlayer :: "(DBPlayer \<Rightarrow> int) \<Rightarrow> DBPlayer list \<times> DBPlayer list \<Rightarrow> DBPlayer
    \<Rightarrow> DBPlayer list \<times> DBPlayer list" where
  "assignPlayer weight teams player =
     (let team1Skill = foldl (\<lambda>sum p. sum + weight p) 0 (fst teams);
          team2Skill = foldl (\<lambda>sum p. sum + weight p) 0 (snd teams)
      in if team1Skill \<le> team2Skill then (fst teams @ [player], snd teams)
         else (fst teams, snd teams @ [player]))"

definition distribute :: "(DBPlayer \<Rightarrow> int) \<Rightarrow> DBPlayer list \<Rightarrow> DBPlayer list \<times> DBPlayer list" where
  "distribute weight players = foldl (assignPlayer weight) ([], []) players"

text \<open>
  \<^verbatim>\<open>generateBalancedTeams\<close>; \<open>allPlayers\<close> is what \<^verbatim>\<open>playerService.getAllPlayers()\<close> returns.
  The call of \<^verbatim>\<open>ensureRatingsInitialized\<close> only fills a cache the function does not read.
\<close>

definition generateBalancedTeams :: "DBPlayer list \<Rightarrow> string list \<Rightarrow> TeamSplit" where
  "generateBalancedTeams allPlayers playerIds =
     (let selectedPlayers = filter (\<lambda>p. p_id p \<in> set playerIds) allPlayers
      in if length selectedPlayers < 4 then \<lparr>team1 = [], team2 = []\<rparr>
         else
           let sortedPlayers =
                 js_sort (\<lambda>a b. getDisplayRating b - getDisplayRating a) selectedPlayers;
               teams = distribute getDisplayRating sortedPlayers
           in \<lparr>team1 = map p_id (fst teams), team2 = map p_id (snd teams)\<rparr>)"

definition generateBalancedTeamsByExperience :: "DBPlayer list \<Rightarrow> string list \<Rightarrow> TeamSplit" where
  "generateBalancedTeamsByExperience allPlayers playerIds =
     (let selectedPlayers = filter (\<lambda>p. p_id p \<in> set playerIds) allPlayers
      in if length selectedPlayers < 4 then \<lparr>team1 = [], team2 = []\<rparr>
         else
           let sortedPlayers =
                 js_sort (\<lambda>a b. int (totalGames b) - int (totalGames a)) selectedPlayers;
               teams = distribute (\<lambda>p. int (totalGames p)) sortedPlayers
           in \<lparr>team1 = map p_id (fst teams), team2 = map p_id (snd teams)\<rparr>)"

subsection \<open>The balancing rule in the words of the specification\<close>

text \<open>
  ``Sort players by display rating descending; greedily assign each to whichever team
  currently has the lower cumulative display-rating sum (ties favor team A).'' The two
  cumulative sums are carried along.
\<close>

fun spec_greedy :: "(DBPlayer \<Rightarrow> int) \<Rightarrow> int \<Rightarrow> int \<Rightarrow> DBPlayer list \<Rightarrow> DBPlayer list \<times> DBPlayer list" where
  "spec_greedy weight sumA sumB [] = ([], [])"
| "spec_greedy weight sumA sumB (p # ps) =
     (if sumB < sumA
      then (let r = spec_greedy weight sumA (sumB + weight p) ps in (fst r, p # snd r))
      else (let r = spec_greedy weight (sumA + weight p) sumB ps in (p # fst r, snd r)))"

definition spec_balanceBySkill :: "DBPlayer list \<Rightarrow> string list \<Rightarrow> TeamSplit" where
  "spec_balanceBySkill allPlayers playerIds =
     (let selected = filter (\<lambda>p. p_id p \<in> set playerIds) allPlayers;
          descending = sort_key (\<lambda>p. - getDisplayRating p) selected;
          teams = spec_greedy getDisplayRating 0 0 descending
      in if length selected \<ge> 4
         then \<lparr>team1 = map p_id (fst teams), team2 = map p_id (snd teams)\<rparr>
         else \<lparr>team1 = [], team2 = []\<rparr>)"

subsection \<open>Sample players\<close>

definition samplePlayer :: "string \<Rightarrow> int \<Rightarrow> DBPlayer" where
  "samplePlayer name rating =
     \<lparr>p_id = name, p_name = name, totalGames = 0, wins = 0, losses = 0, elo = rating,
      mu = None, sigma = None, ordinal = None, lastPlayed = 0, dateCreated = 0,
      p_deviceId = None, p_level = Some 1\<rparr>"

definition fourPlayers :: "DBPlayer list" where
  "fourPlayers =
     [samplePlayer ''dee'' 1400, samplePlayer ''ann'' 2000, samplePlayer ''cy'' 1600,
      samplePlayer ''bob'' 1800]"

definition threePlayers :: "DBPlayer list" where
  "threePlayers = [samplePlayer ''ann'' 2000, samplePlayer ''bob'' 1800, samplePlayer ''cy'' 1600]"

section \<open>The environment: the rating library, the device id, the stores\<close>

text \<open>
  A rating object of the openskill library. The library is not part of the repository, so
  the three functions imported from it are parameters of the model: \<^verbatim>\<open>rating()\<close>, the
  default belief; \<^verbatim>\<open>ordinal\<close>; and \<^verbatim>\<open>rate\<close> applied to two teams with a rank vector and the
  fixed options \<^verbatim>\<open>beta: TRUESKILL_BETA, tau: TRUESKILL_TAU\<close>, giving the two teams' new
  ratings. \<^verbatim>\<open>getDeviceId()\<close> reads the browser's local storage and is a parameter as well.
\<close>

record Rating =
  r_mu :: real
  r_sigma :: real

record Env =
  rating_default :: Rating
  ordinal_of :: "Rating \<Rightarrow> real"
  rate_teams :: "Rating list \<Rightarrow> Rating list \<Rightarrow> nat list \<Rightarrow> Rating list \<times> Rating list"
  getDeviceId :: string

datatype JsError = TypeError | ValidationFailed string | MatchNotFound

text \<open>
  The three collections. Each is keyed by the record's id (a Firestore document id, an
  IndexedDB key path): writing a record replaces the one stored under its id or adds it.
\<close>

record Store =
  players :: "DBPlayer list"
  matches :: "DBMatch list"
  matchPlayers :: "DBMatchPlayer list"

definition putByKey :: "('a \<Rightarrow> string) \<Rightarrow> 'a \<Rightarrow> 'a list \<Rightarrow> 'a list" where
  "putByKey key x xs =
     (if key x \<in> key ` set xs then map (\<lambda>y. if key y = key x then x else y) xs else xs @ [x])"

definition getPlayer :: "Store \<Rightarrow> string \<Rightarrow> DBPlayer option" where
  "getPlayer s pid = find (\<lambda>p. p_id p = pid) (players s)"

text \<open>\<^verbatim>\<open>savePlayer\<close> fills in a missing (undefined or empty) device id before it writes.\<close>

definition stampDevice :: "Env \<Rightarrow> DBPlayer \<Rightarrow> DBPlayer" where
  "stampDevice env player =
     (if p_deviceId player = None \<or> p_deviceId player = Some []
      then player\<lparr>p_deviceId := Some (getDeviceId env)\<rparr> else player)"

definition savePlayer :: "Env \<Rightarrow> DBPlayer \<Rightarrow> Store \<Rightarrow> Store" where
  "savePlayer env player s = s\<lparr>players := putByKey p_id (stampDevice env player) (players s)\<rparr>"

definition getMatch :: "Store \<Rightarrow> string \<Rightarrow> DBMatch option" where
  "getMatch s mid = find (\<lambda>m. m_id m = mid) (matches s)"

definition getMatchPlayers :: "Store \<Rightarrow> string \<Rightarrow> DBMatchPlayer list" where
  "getMatchPlayers s mid = filter (\<lambda>mp. matchId mp = mid) (matchPlayers s)"

section \<open>Recalculation (services/firebase/FirebaseStatsService.ts)\<close>

record PlayerStats =
  ps_totalGames :: nat
  ps_wins :: nat
  ps_losses :: nat

text \<open>The two maps of a run: \<^verbatim>\<open>playerStatsMap\<close> and \<^verbatim>\<open>this.playerRatings\<close>.\<close>

record Replay =
  playerStatsMap :: "string \<rightharpoonup> PlayerStats"
  playerRatings :: "string \<rightharpoonup> Rating"

definition initialReplay :: "Env \<Rightarrow> DBPlayer list \<Rightarrow> Replay" where
  "initialReplay env ps =
     \<lparr>playerStatsMap =
        foldl (\<lambda>m player. m(p_id player \<mapsto> \<lparr>ps_totalGames = 0, ps_wins = 0, ps_losses = 0\<rparr>))
              Map.empty ps,
      playerRatings = foldl (\<lambda>m player. m(p_id player \<mapsto> rating_default env)) Map.empty ps\<rparr>"

text \<open>\<^verbatim>\<open>result[0][i]\<close>: reading past the end of an array gives \<^verbatim>\<open>undefined\<close>.\<close>

definition nth_opt :: "'a list \<Rightarrow> nat \<Rightarrow> 'a option" where
  "nth_opt xs i = (if i < length xs then Some (xs ! i) else None)"

definition storeRatings :: "(string \<rightharpoonup> Rating) \<Rightarrow> string list \<Rightarrow> Rating list \<Rightarrow> (string \<rightharpoonup> Rating)" where
  "storeRatings m ids result = foldl (\<lambda>m i. m(ids ! i := nth_opt result i)) m [0..<length ids]"

definition countGame :: "Team \<Rightarrow> (string \<rightharpoonup> PlayerStats) \<Rightarrow> DBMatchPlayer \<Rightarrow> (string \<rightharpoonup> PlayerStats)" where
  "countGame winner m mp =
     (case m (playerId mp) of
        None \<Rightarrow> m
      | Some stats \<Rightarrow>
          m(playerId mp \<mapsto>
            (if team mp = winner
             then stats\<lparr>ps_totalGames := ps_totalGames stats + 1, ps_wins := ps_wins stats + 1\<rparr>
             else stats\<lparr>ps_totalGames := ps_totalGames stats + 1, ps_losses := ps_losses stats + 1\<rparr>)))"

text \<open>
  One round of the loop over the matches. A participation whose player has no entry in
  \<^verbatim>\<open>playerRatings\<close> puts \<^verbatim>\<open>undefined\<close> into a team; \<^verbatim>\<open>rate\<close> reads the fields of every
  rating it is given, which throws a \<^verbatim>\<open>TypeError\<close> on \<^verbatim>\<open>undefined\<close>.
\<close>

definition processMatch :: "Env \<Rightarrow> DBMatchPlayer list \<Rightarrow> DBMatch \<Rightarrow> Replay \<Rightarrow> JsError + Replay" where
  "processMatch env entries match st =
     (let titans = filter (\<lambda>mp. team mp = Titans) entries;
          atlanteans = filter (\<lambda>mp. team mp \<noteq> Titans) entries;
          titanRatings = map (\<lambda>mp. playerRatings st (playerId mp)) titans;
          atlanteanRatings = map (\<lambda>mp. playerRatings st (playerId mp)) atlanteans
      in if length titanRatings = 0 \<or> length atlanteanRatings = 0 then Inr st
         else if None \<in> set titanRatings \<or> None \<in> set atlanteanRatings then Inl TypeError
         else
           let ranks = (if winningTeam match = Titans then [1, 2] else [2, 1]);
               result = rate_teams env (map the titanRatings) (map the atlanteanRatings) ranks;
               ratings1 = storeRatings (playerRatings st) (map playerId titans) (fst result);
               ratings2 = storeRatings ratings1 (map playerId atlanteans) (snd result)
           in Inr \<lparr>playerStatsMap = foldl (countGame (winningTeam match)) (playerStatsMap st) entries,
                   playerRatings = ratings2\<rparr>)"

fun processMatches :: "Env \<Rightarrow> Store \<Rightarrow> DBMatch list \<Rightarrow> Replay \<Rightarrow> JsError + Replay" where
  "processMatches env s [] st = Inr st"
| "processMatches env s (match # rest) st =
     (case processMatch env (getMatchPlayers s (m_id match)) match st of
        Inl e \<Rightarrow> Inl e
      | Inr st' \<Rightarrow> processMatches env s rest st')"

text \<open>
  The record written for one player. \<open>readClock\<close> gives the value of the \<^verbatim>\<open>new Date()\<close>
  evaluated while that player's record is built.
\<close>

definition updatedPlayer :: "Env \<Rightarrow> (string \<Rightarrow> int) \<Rightarrow> DBPlayer \<Rightarrow> PlayerStats \<Rightarrow> Rating \<Rightarrow> DBPlayer" where
  "updatedPlayer env readClock player stats playerRating =
     player\<lparr>totalGames := ps_totalGames stats,
            wins := ps_wins stats,
            losses := ps_losses stats,
            mu := Some (r_mu playerRating),
            sigma := Some (r_sigma playerRating),
            ordinal := Some (ordinal_of env playerRating),
            elo := js_round ((ordinal_of env playerRating + 25) * 40 + 200),
            lastPlayed := (if ps_totalGames stats > 0 then readClock (p_id player)
                           else lastPlayed player)\<rparr>"

text \<open>
  The loop that saves the players. Reading a field of an undefined entry throws; the
  players saved before stay saved, so the store reached is returned with the error.
\<close>

fun saveAll :: "Env \<Rightarrow> (string \<Rightarrow> int) \<Rightarrow> Replay \<Rightarrow> DBPlayer list \<Rightarrow> Store \<Rightarrow> (JsError + unit) \<times> Store" where
  "saveAll env readClock st [] s = (Inr (), s)"
| "saveAll env readClock st (player # rest) s =
     (case playerStatsMap st (p_id player) of
        None \<Rightarrow> (Inl TypeError, s)
      | Some stats \<Rightarrow>
          (case playerRatings st (p_id player) of
             None \<Rightarrow> (Inl TypeError, s)
           | Some playerRating \<Rightarrow>
               saveAll env readClock st rest
                 (savePlayer env (updatedPlayer env readClock player stats playerRating) s)))"

definition recalculatePlayerStats :: "Env \<Rightarrow> (string \<Rightarrow> int) \<Rightarrow> Store \<Rightarrow> (JsError + unit) \<times> Store" where
  "recalculatePlayerStats env readClock s =
     (let allPlayers = players s;
          allMatches = js_sort (\<lambda>a b. date a - date b) (matches s)
      in case processMatches env s allMatches (initialReplay env allPlayers) of
           Inl e \<Rightarrow> (Inl e, s)
         | Inr st \<Rightarrow> saveAll env readClock st allPlayers s)"

text \<open>The rating fields and tallies that a run writes for a player.\<close>

definition ratingState :: "DBPlayer \<Rightarrow> real option \<times> real option \<times> real option \<times> int \<times> nat \<times> nat \<times> nat" where
  "ratingState p = (mu p, sigma p, ordinal p, elo p, totalGames p, wins p, losses p)"

subsection \<open>Notions used to state and prove the properties of a run\<close>

text \<open>The record that the saving loop writes for a player, given the maps of the run.\<close>

definition written :: "Env \<Rightarrow> (string \<Rightarrow> int) \<Rightarrow> Replay \<Rightarrow> DBPlayer \<Rightarrow> DBPlayer" where
  "written env readClock st player =
     stampDevice env (updatedPlayer env readClock player
       (the (playerStatsMap st (p_id player))) (the (playerRatings st (p_id player))))"

text \<open>The players that the saving loop reaches before it stops: all of them, or those before
  the first one without an entry in one of the maps.\<close>

definition savedPrefix :: "Replay \<Rightarrow> DBPlayer list \<Rightarrow> DBPlayer list" where
  "savedPrefix st ps =
     takeWhile (\<lambda>p. playerStatsMap st (p_id p) \<noteq> None \<and> playerRatings st (p_id p) \<noteq> None) ps"

text \<open>The effect on one stored record of writing the records \<open>w q\<close> for \<open>q\<close> in a list, in turn.\<close>

fun applyAll :: "(DBPlayer \<Rightarrow> DBPlayer) \<Rightarrow> DBPlayer list \<Rightarrow> DBPlayer \<Rightarrow> DBPlayer" where
  "applyAll w [] y = y"
| "applyAll w (q # qs) y = applyAll w qs (if p_id y = p_id (w q) then w q else y)"

text \<open>The rating fields and tallies written for a player id.\<close>

definition ratingOutput :: "Env \<Rightarrow> Replay \<Rightarrow> string \<Rightarrow> real option \<times> real option \<times> real option \<times> int \<times> nat \<times> nat \<times> nat" where
  "ratingOutput env st pid =
     (let stats = the (playerStatsMap st pid); r = the (playerRatings st pid)
      in (Some (r_mu r), Some (r_sigma r), Some (ordinal_of env r),
          js_round ((ordinal_of env r + 25) * 40 + 200),
          ps_totalGames stats, ps_wins stats, ps_losses stats))"

text \<open>A match is replayed unless one of its teams is empty; a player takes part in the replay
  when a replayed match has a participation of theirs.\<close>

definition replayed :: "Store \<Rightarrow> DBMatch \<Rightarrow> bool" where
  "replayed s m \<longleftrightarrow>
     filter (\<lambda>mp. team mp = Titans) (getMatchPlayers s (m_id m)) \<noteq> []
     \<and> filter (\<lambda>mp. team mp \<noteq> Titans) (getMatchPlayers s (m_id m)) \<noteq> []"

definition takesPart :: "Store \<Rightarrow> string \<Rightarrow> bool" where
  "takesPart s pid \<longleftrightarrow>
     list_ex (\<lambda>m. replayed s m \<and> list_ex (\<lambda>mp. playerId mp = pid) (getMatchPlayers s (m_id m)))
       (matches s)"

text \<open>The invariant of the tallies kept during a run.\<close>

definition statsOk :: "(string \<rightharpoonup> PlayerStats) \<Rightarrow> bool" where
  "statsOk m \<longleftrightarrow> (\<forall>k z. m k = Some z \<longrightarrow> ps_wins z + ps_losses z = ps_totalGames z)"

subsection \<open>A sample environment and store\<close>

text \<open>
  A stand-in for the library with the shape of \<^verbatim>\<open>rate\<close>: the team ranked first gains a
  point of \<open>mu\<close>, the other loses one, and every \<open>sigma\<close> shrinks by a tenth.
\<close>

definition sampleRate :: "Rating list \<Rightarrow> Rating list \<Rightarrow> nat list \<Rightarrow> Rating list \<times> Rating list" where
  "sampleRate teamA teamB ranks =
     (let d = (if ranks = [1, 2] then 1 else - 1)
      in (map (\<lambda>r. \<lparr>r_mu = r_mu r + d, r_sigma = r_sigma r * (9 / 10)\<rparr>) teamA,
          map (\<lambda>r. \<lparr>r_mu = r_mu r - d, r_sigma = r_sigma r * (9 / 10)\<rparr>) teamB))"

definition sampleEnv :: Env where
  "sampleEnv =
     \<lparr>rating_default = \<lparr>r_mu = 25, r_sigma = 25 / 3\<rparr>,
      ordinal_of = (\<lambda>r. r_mu r - 3 * r_sigma r),
      rate_teams = sampleRate,
      getDeviceId = ''device_1''\<rparr>"

definition sampleClock :: "string \<Rightarrow> int" where
  "sampleClock pid = 5000"

definition sampleStore :: Store where
  "sampleStore =
     \<lparr>players = [samplePlayer ''ann'' 1200, samplePlayer ''bob'' 1200, samplePlayer ''cy'' 1200],
      matches = [sampleMatch\<lparr>m_id := ''m1''\<rparr>],
      matchPlayers =
        [(sampleEntry ''ann'' Titans 1)\<lparr>mp_id := ''e1'', matchId := ''m1''\<rparr>,
         (sampleEntry ''bob'' Atlanteans 2)\<lparr>mp_id := ''e2'', matchId := ''m1''\<rparr>]\<rparr>"

section \<open>Recording and deleting a match (MatchService.ts, FirebaseMatchService.ts)\<close>

text \<open>The two argument objects of \<^verbatim>\<open>recordMatch\<close>.\<close>

record MatchData =
  md_date :: int
  md_winningTeam :: Team
  md_gameLength :: GameLength
  md_doubleLanes :: bool

record PlayerData =
  pd_id :: string
  pd_team :: Team
  pd_heroId :: int
  pd_heroName :: string
  pd_heroRoles :: "string list"
  pd_kills :: "int option"
  pd_deaths :: "int option"
  pd_assists :: "int option"
  pd_goldEarned :: "int option"
  pd_minionKills :: "int option"
  pd_level :: "int option"

definition INITIAL_ELO :: int where
  "INITIAL_ELO = 1200"

text \<open>
  \<^verbatim>\<open>validateNewMatch\<close> of FirebaseValidationService.ts. (MatchService.ts and
  FirebaseMatchService.ts import it from \<^verbatim>\<open>database/ValidationService\<close>, which is not among
  the sources; the Firebase service is its twin.)
\<close>

definition validateNewMatch :: "int \<Rightarrow> int \<Rightarrow> MatchData \<Rightarrow> PlayerData list \<Rightarrow> ValidationResult" where
  "validateNewMatch now oneYearAgo matchData playerData =
     (let dbMatch =
            \<lparr>m_id = [], date = md_date matchData, winningTeam = md_winningTeam matchData,
             gameLength = md_gameLength matchData, doubleLanes = md_doubleLanes matchData,
             titanPlayers = length (filter (\<lambda>p. pd_team p = Titans) playerData),
             atlanteanPlayers = length (filter (\<lambda>p. pd_team p = Atlanteans) playerData),
             m_deviceId = None\<rparr>;
          dbMatchPlayers =
            map (\<lambda>p. \<lparr>mp_id = [], matchId = [], playerId = pd_id p, team = pd_team p,
                       heroId = pd_heroId p, heroName = pd_heroName p, heroRoles = pd_heroRoles p,
                       kills = pd_kills p, deaths = pd_deaths p, assists = pd_assists p,
                       goldEarned = pd_goldEarned p, minionKills = pd_minionKills p,
                       mp_level = pd_level p, mp_deviceId = None\<rparr>) playerData
      in validateMatchEdit now oneYearAgo dbMatch dbMatchPlayers)"

text \<open>
  The clock readings of an operation, by the id of the player whose record is being built:
  the two \<^verbatim>\<open>new Date()\<close> of \<^verbatim>\<open>createPlayer\<close> and the one of the recalculation.
\<close>

record Clocks =
  atLastPlayed :: "string \<Rightarrow> int"
  atDateCreated :: "string \<Rightarrow> int"
  atRecalculation :: "string \<Rightarrow> int"

definition newPlayer :: "Env \<Rightarrow> Clocks \<Rightarrow> string \<Rightarrow> string \<Rightarrow> DBPlayer" where
  "newPlayer env clk pid playerName =
     \<lparr>p_id = pid, p_name = playerName, totalGames = 0, wins = 0, losses = 0, elo = INITIAL_ELO,
      mu = Some (r_mu (rating_default env)), sigma = Some (r_sigma (rating_default env)),
      ordinal = Some (ordinal_of env (rating_default env)),
      lastPlayed = atLastPlayed clk pid, dateCreated = atDateCreated clk pid,
      p_deviceId = Some (getDeviceId env), p_level = Some 1\<rparr>"

definition createPlayer :: "Env \<Rightarrow> Clocks \<Rightarrow> string \<Rightarrow> string \<Rightarrow> Store \<Rightarrow> Store" where
  "createPlayer env clk pid playerName s = savePlayer env (newPlayer env clk pid playerName) s"

text \<open>
  One callback of \<^verbatim>\<open>playerData.map(async ...)\<close>: create the player, or raise the stored level.
  The callbacks run interleaved; for participants with pairwise distinct ids they touch
  different player records, and running them one after the other gives the same store.
\<close>

definition ensurePlayer :: "Env \<Rightarrow> Clocks \<Rightarrow> Store \<Rightarrow> PlayerData \<Rightarrow> Store" where
  "ensurePlayer env clk s playerInfo =
     (case getPlayer s (pd_id playerInfo) of
        None \<Rightarrow> createPlayer env clk (pd_id playerInfo) (pd_id playerInfo) s
      | Some existingPlayer \<Rightarrow>
          (case pd_level playerInfo of
             None \<Rightarrow> s
           | Some l \<Rightarrow>
               (case p_level existingPlayer of
                  None \<Rightarrow> savePlayer env (existingPlayer\<lparr>p_level := Some l\<rparr>) s
                | Some stored \<Rightarrow>
                    if l > stored then savePlayer env (existingPlayer\<lparr>p_level := Some l\<rparr>) s
                    else s)))"

definition saveMatch :: "Env \<Rightarrow> DBMatch \<Rightarrow> Store \<Rightarrow> Store" where
  "saveMatch env match s =
     (let match' = (if m_deviceId match = None \<or> m_deviceId match = Some []
                    then match\<lparr>m_deviceId := Some (getDeviceId env)\<rparr> else match)
      in s\<lparr>matches := putByKey m_id match' (matches s)\<rparr>)"

definition saveMatchPlayer :: "Env \<Rightarrow> DBMatchPlayer \<Rightarrow> Store \<Rightarrow> Store" where
  "saveMatchPlayer env matchPlayer s =
     (let matchPlayer' = (if mp_deviceId matchPlayer = None \<or> mp_deviceId matchPlayer = Some []
                          then matchPlayer\<lparr>mp_deviceId := Some (getDeviceId env)\<rparr>
                          else matchPlayer)
      in s\<lparr>matchPlayers := putByKey mp_id matchPlayer' (matchPlayers s)\<rparr>)"

definition newEntry :: "Env \<Rightarrow> string \<Rightarrow> string \<Rightarrow> PlayerData \<Rightarrow> DBMatchPlayer" where
  "newEntry env entryId mid playerInfo =
     \<lparr>mp_id = entryId, matchId = mid, playerId = pd_id playerInfo, team = pd_team playerInfo,
      heroId = pd_heroId playerInfo, heroName = pd_heroName playerInfo,
      heroRoles = pd_heroRoles playerInfo, kills = pd_kills playerInfo,
      deaths = pd_deaths playerInfo, assists = pd_assists playerInfo,
      goldEarned = pd_goldEarned playerInfo, minionKills = pd_minionKills playerInfo,
      mp_level = pd_level playerInfo, mp_deviceId = Some (getDeviceId env)\<rparr>"

text \<open>
  \<^verbatim>\<open>recordMatch\<close>. \<open>uuid k\<close> is the value of the \<open>k\<close>-th call of \<^verbatim>\<open>generateUUID()\<close>: the match
  id first, then one id per participation in input order. \<^verbatim>\<open>generateUUID\<close> returns 36
  characters, so \<^verbatim>\<open>saveMatch\<close> and \<^verbatim>\<open>saveMatchPlayer\<close> never replace an id on this path.
  The participation records are written concurrently, each under its own id. The Firebase
  service calls the recalculation through a reference that is set when its module loads.
\<close>

definition newMatch :: "Env \<Rightarrow> string \<Rightarrow> MatchData \<Rightarrow> PlayerData list \<Rightarrow> DBMatch" where
  "newMatch env mid matchData playerData =
     \<lparr>m_id = mid, date = md_date matchData, winningTeam = md_winningTeam matchData,
      gameLength = md_gameLength matchData, doubleLanes = md_doubleLanes matchData,
      titanPlayers = length (filter (\<lambda>p. pd_team p = Titans) playerData),
      atlanteanPlayers = length (filter (\<lambda>p. pd_team p = Atlanteans) playerData),
      m_deviceId = Some (getDeviceId env)\<rparr>"

definition newEntries :: "Env \<Rightarrow> (nat \<Rightarrow> string) \<Rightarrow> string \<Rightarrow> PlayerData list \<Rightarrow> DBMatchPlayer list" where
  "newEntries env uuid mid playerData =
     map (\<lambda>(i, playerInfo). newEntry env (uuid (Suc i)) mid playerInfo) (enumerate 0 playerData)"

text \<open>The writes of \<^verbatim>\<open>recordMatch\<close> before the recalculation: players, match, participations.\<close>

definition persistMatch :: "Env \<Rightarrow> Clocks \<Rightarrow> (nat \<Rightarrow> string) \<Rightarrow> MatchData \<Rightarrow> PlayerData list \<Rightarrow> Store \<Rightarrow> Store" where
  "persistMatch env clk uuid matchData playerData s =
     (let s1 = foldl (ensurePlayer env clk) s playerData;
          match = newMatch env (uuid 0) matchData playerData;
          s2 = saveMatch env match s1
      in foldl (\<lambda>s matchPlayer. saveMatchPlayer env matchPlayer s) s2
           (newEntries env uuid (m_id match) playerData))"

definition recordMatch :: "Env \<Rightarrow> Clocks \<Rightarrow> (nat \<Rightarrow> string) \<Rightarrow> int \<Rightarrow> int \<Rightarrow> MatchData \<Rightarrow> PlayerData list
    \<Rightarrow> Store \<Rightarrow> (JsError + string) \<times> Store" where
  "recordMatch env clk uuid now oneYearAgo matchData playerData s =
     (let validation = validateNewMatch now oneYearAgo matchData playerData
      in if \<not> isValid validation
         then (Inl (ValidationFailed (''Match validation failed: ''
                      @ join '', '' (map message (errors validation)))), s)
         else
           case recalculatePlayerStats env (atRecalculation clk)
                  (persistMatch env clk uuid matchData playerData s) of
             (Inl e, s4) \<Rightarrow> (Inl e, s4)
           | (Inr u, s4) \<Rightarrow> (Inr (uuid 0), s4))"

definition deleteMatchAndPlayers :: "string \<Rightarrow> DBMatchPlayer list \<Rightarrow> Store \<Rightarrow> Store" where
  "deleteMatchAndPlayers mid entries s =
     s\<lparr>matchPlayers := filter (\<lambda>mp. mp_id mp \<notin> set (map mp_id entries)) (matchPlayers s),
       matches := filter (\<lambda>m. m_id m \<noteq> mid) (matches s)\<rparr>"

definition deleteMatch :: "Env \<Rightarrow> (string \<Rightarrow> int) \<Rightarrow> string \<Rightarrow> Store \<Rightarrow> (JsError + unit) \<times> Store" where
  "deleteMatch env readClock mid s =
     (case getMatch s mid of
        None \<Rightarrow> (Inl MatchNotFound, s)
      | Some match \<Rightarrow>
          recalculatePlayerStats env readClock
            (deleteMatchAndPlayers mid (getMatchPlayers s mid) s))"

text \<open>A stored level is below another when it is undefined or a smaller number.\<close>

definition levelLe :: "int option \<Rightarrow> int option \<Rightarrow> bool" where
  "levelLe a b = (case a of None \<Rightarrow> True | Some x \<Rightarrow> (case b of None \<Rightarrow> False | Some y \<Rightarrow> x \<le> y))"

subsection \<open>A sample recording\<close>

definition sampleClocks :: Clocks where
  "sampleClocks =
     \<lparr>atLastPlayed = (\<lambda>pid. 4000), atDateCreated = (\<lambda>pid. 4000), atRecalculation = (\<lambda>pid. 5000)\<rparr>"

definition sampleUuid :: "nat \<Rightarrow> string" where
  "sampleUuid k = ''uuid-'' @ show_nat k"

definition sampleMatchData :: MatchData where
  "sampleMatchData =
     \<lparr>md_date = 1500, md_winningTeam = Atlanteans, md_gameLength = Long, md_doubleLanes = False\<rparr>"

definition sampleInfo :: "string \<Rightarrow> Team \<Rightarrow> int \<Rightarrow> int option \<Rightarrow> PlayerData" where
  "sampleInfo pid t h l =
     \<lparr>pd_id = pid, pd_team = t, pd_heroId = h, pd_heroName = ''Hero'', pd_heroRoles = [],
      pd_kills = None, pd_deaths = None, pd_assists = None, pd_goldEarned = None,
      pd_minionKills = None, pd_level = l\<rparr>"

definition sampleRoster :: "PlayerData list" where
  "sampleRoster =
     [sampleInfo ''cy'' Titans 3 (Some 5), sampleInfo ''dee'' Titans 4 None,
      sampleInfo ''eve'' Atlanteans 5 (Some 2), sampleInfo ''fay'' Atlanteans 6 None]"

section \<open>Win probability with confidence interval (MatchMakingService.ts)\<close>

definition TRUESKILL_BETA :: real where
  "TRUESKILL_BETA = 25 / 6"

subsection \<open>Numbers that may be \<^verbatim>\<open>NaN\<close>\<close>

text \<open>
  A number of this computation is a real or \<^verbatim>\<open>NaN\<close> (\<open>None\<close>). \<^verbatim>\<open>NaN\<close> arises from reading
  \<^verbatim>\<open>mu\<close> or \<^verbatim>\<open>sigma\<close> of a value that has no such property (\<^verbatim>\<open>sum + undefined\<close>,
  \<^verbatim>\<open>undefined ** 2\<close>) and from \<^verbatim>\<open>Math.sqrt\<close> of a negative number; arithmetic and
  \<^verbatim>\<open>Math.round\<close> pass it on.
\<close>

type_synonym number = "real option"

definition num_add :: "number \<Rightarrow> number \<Rightarrow> number" where
  "num_add a b = (case a of None \<Rightarrow> None | Some x \<Rightarrow> (case b of None \<Rightarrow> None | Some y \<Rightarrow> Some (x + y)))"

definition num_sub :: "number \<Rightarrow> number \<Rightarrow> number" where
  "num_sub a b = (case a of None \<Rightarrow> None | Some x \<Rightarrow> (case b of None \<Rightarrow> None | Some y \<Rightarrow> Some (x - y)))"

definition num_mul :: "number \<Rightarrow> number \<Rightarrow> number" where
  "num_mul a b = (case a of None \<Rightarrow> None | Some x \<Rightarrow> (case b of None \<Rightarrow> None | Some y \<Rightarrow> Some (x * y)))"

definition num_sqrt :: "number \<Rightarrow> number" where
  "num_sqrt a = (case a of None \<Rightarrow> None | Some x \<Rightarrow> if x < 0 then None else Some (sqrt x))"

definition num_round :: "number \<Rightarrow> int option" where
  "num_round a = map_option js_round a"

subsection \<open>The cache of ratings\<close>

text \<open>
  The cache \<^verbatim>\<open>this.playerRatings\<close> is a plain object created by \<^verbatim>\<open>{}\<close>: its own properties,
  keyed by player id, and its prototype. An assignment to the key \<^verbatim>\<open>__proto__\<close> creates no
  own property: it makes the assigned rating object the prototype. \<open>proto = None\<close> is the
  prototype every object literal starts with, \<^verbatim>\<open>Object.prototype\<close>.
\<close>

record RatingsObject =
  own :: "(string \<times> Rating) list"
  proto :: "Rating option"

definition emptyObject :: RatingsObject where
  "emptyObject = \<lparr>own = [], proto = None\<rparr>"

definition setRating :: "string \<Rightarrow> Rating \<Rightarrow> RatingsObject \<Rightarrow> RatingsObject" where
  "setRating k r obj =
     (if k = ''__proto__'' then obj\<lparr>proto := Some r\<rparr>
      else obj\<lparr>own := putByKey fst (k, r) (own obj)\<rparr>)"

text \<open>The property names of \<^verbatim>\<open>Object.prototype\<close> other than \<^verbatim>\<open>__proto__\<close>.\<close>

definition objectPrototypeKeys :: "string list" where
  "objectPrototypeKeys =
     [''constructor'', ''hasOwnProperty'', ''isPrototypeOf'', ''propertyIsEnumerable'',
      ''toLocaleString'', ''toString'', ''valueOf'', ''__defineGetter__'', ''__defineSetter__'',
      ''__lookupGetter__'', ''__lookupSetter__'']"

text \<open>
  What \<^verbatim>\<open>this.playerRatings[playerId]\<close> reads: a rating object; a truthy value that is no
  rating (a function or object inherited from \<^verbatim>\<open>Object.prototype\<close>, or a number other than 0
  inherited from a rating that was made the prototype), whose \<^verbatim>\<open>mu\<close> and \<^verbatim>\<open>sigma\<close> are
  \<^verbatim>\<open>undefined\<close>; or a falsy value (\<^verbatim>\<open>undefined\<close>, or the number 0).
\<close>

datatype Property = IsRating Rating | NoRating | Falsy

definition objectProperty :: "string \<Rightarrow> Property" where
  "objectProperty k = (if k \<in> set objectPrototypeKeys then NoRating else Falsy)"

definition numberProperty :: "real \<Rightarrow> Property" where
  "numberProperty x = (if x = 0 then Falsy else NoRating)"

definition getRating :: "RatingsObject \<Rightarrow> string \<Rightarrow> Property" where
  "getRating obj k =
     (if k = ''__proto__''
      then (case proto obj of Some r \<Rightarrow> IsRating r | None \<Rightarrow> NoRating)
      else (case map_of (own obj) k of
              Some r \<Rightarrow> IsRating r
            | None \<Rightarrow>
                (case proto obj of
                   Some r \<Rightarrow>
                     if k = ''mu'' then numberProperty (r_mu r)
                     else if k = ''sigma'' then numberProperty (r_sigma r)
                     else objectProperty k
                 | None \<Rightarrow> objectProperty k)))"

text \<open>
  \<^verbatim>\<open>ensureRatingsInitialized\<close> fills the cache from the stored players when
  \<^verbatim>\<open>Object.keys\<close> finds no own property; \<open>allPlayers\<close> is what
  \<^verbatim>\<open>playerService.getAllPlayers()\<close> returns.
\<close>

definition ensureRatingsInitialized :: "Env \<Rightarrow> DBPlayer list \<Rightarrow> RatingsObject \<Rightarrow> RatingsObject" where
  "ensureRatingsInitialized env allPlayers cache =
     (if length (own cache) = 0
      then foldl (\<lambda>obj player.
                   setRating (p_id player)
                     (case mu player of
                        Some m' \<Rightarrow> (case sigma player of
                                     Some s' \<Rightarrow> \<lparr>r_mu = m', r_sigma = s'\<rparr>
                                   | None \<Rightarrow> rating_default env)
                      | None \<Rightarrow> rating_default env) obj)
             emptyObject allPlayers
      else cache)"

text \<open>
  The ratings pushed for a team: the cached value when it is truthy, \<^verbatim>\<open>rating()\<close> otherwise.
  \<open>None\<close> is a pushed value that is no rating.
\<close>

definition teamRatings :: "Env \<Rightarrow> RatingsObject \<Rightarrow> string list \<Rightarrow> Rating option list" where
  "teamRatings env cache ids =
     map (\<lambda>playerId. case getRating cache playerId of
                        IsRating r \<Rightarrow> Some r
                      | NoRating \<Rightarrow> None
                      | Falsy \<Rightarrow> Some (rating_default env)) ids"

subsection \<open>The computation\<close>

record WinProbabilityCI =
  team1Probability :: "int option"
  team1Lower :: "int option"
  team1Upper :: "int option"
  team2Probability :: "int option"
  team2Lower :: "int option"
  team2Upper :: "int option"

text \<open>The parameters of a team and of the difference of the two teams.\<close>

definition teamMu :: "Rating option list \<Rightarrow> number" where
  "teamMu ratings = foldl (\<lambda>sum r. num_add sum (map_option r_mu r)) (Some 0) ratings"

definition skillVariance :: "Rating option list \<Rightarrow> number" where
  "skillVariance ratings =
     foldl (\<lambda>sum r. num_add sum (map_option (\<lambda>r'. (r_sigma r')\<^sup>2) r)) (Some 0) ratings"

definition performanceVariance :: "Rating option list \<Rightarrow> number" where
  "performanceVariance ratings =
     num_add (skillVariance ratings) (Some (real (length ratings) * TRUESKILL_BETA\<^sup>2))"

definition deltaMu :: "Rating option list \<Rightarrow> Rating option list \<Rightarrow> number" where
  "deltaMu team1Ratings team2Ratings = num_sub (teamMu team1Ratings) (teamMu team2Ratings)"

definition deltaPerformanceSigma :: "Rating option list \<Rightarrow> Rating option list \<Rightarrow> number" where
  "deltaPerformanceSigma team1Ratings team2Ratings =
     num_sqrt (num_add (performanceVariance team1Ratings) (performanceVariance team2Ratings))"

definition deltaSkillSigma :: "Rating option list \<Rightarrow> Rating option list \<Rightarrow> number" where
  "deltaSkillSigma team1Ratings team2Ratings =
     num_sqrt (num_add (skillVariance team1Ratings) (skillVariance team2Ratings))"

text \<open>
  \<^verbatim>\<open>calculateWinProbabilityWithCI\<close>. The package \<^verbatim>\<open>normal-distribution\<close> is not part of the
  repository, so it is a parameter: \<open>cdf mean sd x\<close> stands for
  \<^verbatim>\<open>new NormalDistribution(mean, sd).cdf(x)\<close>, which returns a number or throws. An exception
  of the library leaves the function: the three calls are made in the order of the source and
  the first error is the result.
\<close>

definition calculateWinProbabilityWithCI :: "Env \<Rightarrow> (real \<Rightarrow> number \<Rightarrow> number \<Rightarrow> JsError + number)
    \<Rightarrow> DBPlayer list \<Rightarrow> RatingsObject \<Rightarrow> string list \<Rightarrow> string list \<Rightarrow> JsError + WinProbabilityCI" where
  "calculateWinProbabilityWithCI env cdf allPlayers cache team1Players team2Players =
     (let playerRatings = ensureRatingsInitialized env allPlayers cache;
          team1Ratings = teamRatings env playerRatings team1Players;
          team2Ratings = teamRatings env playerRatings team2Players;
          normalDist = cdf 0 (deltaPerformanceSigma team1Ratings team2Ratings)
      in case normalDist (deltaMu team1Ratings team2Ratings) of
           Inl e \<Rightarrow> Inl e
         | Inr winProb \<Rightarrow>
             (let ciMargin = num_mul (Some (196 / 100)) (deltaSkillSigma team1Ratings team2Ratings);
                  lowerSkillDelta = num_sub (deltaMu team1Ratings team2Ratings) ciMargin
              in case normalDist lowerSkillDelta of
                   Inl e \<Rightarrow> Inl e
                 | Inr lowerWinProb \<Rightarrow>
                     (let upperSkillDelta = num_add (deltaMu team1Ratings team2Ratings) ciMargin
                      in case normalDist upperSkillDelta of
                           Inl e \<Rightarrow> Inl e
                         | Inr upperWinProb \<Rightarrow>
                             Inr \<lparr>team1Probability = num_round (num_mul winProb (Some 100)),
                                  team1Lower = num_round (num_mul lowerWinProb (Some 100)),
                                  team1Upper = num_round (num_mul upperWinProb (Some 100)),
                                  team2Probability = num_round (num_mul (num_sub (Some 1) winProb) (Some 100)),
                                  team2Lower = num_round (num_mul (num_sub (Some 1) upperWinProb) (Some 100)),
                                  team2Upper = num_round (num_mul (num_sub (Some 1) lowerWinProb) (Some 100))\<rparr>)))"

subsection \<open>A sample cumulative distribution and two rated players\<close>

text \<open>
  A stand-in for the library's cumulative distribution function. It throws where the z-score
  \<open>(x - mean) / sd\<close> is \<^verbatim>\<open>NaN\<close>: at a \<^verbatim>\<open>NaN\<close> argument and at \<open>0 / 0\<close>. Elsewhere it is
  piecewise linear, symmetric, increasing from 0 to 1, and equal to the standard normal
  distribution at \<open>z = 0\<close> (one half) and at \<open>z = 1.96\<close> and \<open>z = - 1.96\<close> (0.975 and 0.025, the
  table values).
\<close>

definition sampleCdf :: "real \<Rightarrow> number \<Rightarrow> number \<Rightarrow> JsError + number" where
  "sampleCdf mean sd x =
     (case sd of
        None \<Rightarrow> Inl TypeError
      | Some s \<Rightarrow>
          (case x of
             None \<Rightarrow> Inl TypeError
           | Some x' \<Rightarrow>
               if s = 0
               then (if x' = mean then Inl TypeError
                     else Inr (Some (if x' < mean then 0 else 1)))
               else Inr (Some (max 0 (min 1 (1 / 2 + (x' - mean) / s * (95 / 392)))))))"

definition ratedPlayer :: "string \<Rightarrow> real \<Rightarrow> real \<Rightarrow> DBPlayer" where
  "ratedPlayer name m s =
     \<lparr>p_id = name, p_name = name, totalGames = 3, wins = 2, losses = 1, elo = 1500,
      mu = Some m, sigma = Some s, ordinal = Some (m - 3 * s), lastPlayed = 0, dateCreated = 0,
      p_deviceId = None, p_level = Some 1\<rparr>"

definition ratedPlayers :: "DBPlayer list" where
  "ratedPlayers = [ratedPlayer ''ann'' (124 / 3) (25 / 6), ratedPlayer ''bob'' 25 (25 / 6)]"

section \<open>Properties of the validation\<close>

lemma map_of_heroUsage_push:
  "map_of (heroUsage_push m h p) k =
     (if k = h then Some ((case map_of m h of None \<Rightarrow> [] | Some l \<Rightarrow> l) @ [p]) else map_of m k)"
  by (induction m h p rule: heroUsage_push.induct) auto

lemma keys_heroUsage_push:
  "map fst (heroUsage_push m h p) = (if h \<in> fst ` set m then map fst m else map fst m @ [h])"
  by (induction m h p rule: heroUsage_push.induct) auto

lemma distinct_heroUsage_push:
  "distinct (map fst m) \<Longrightarrow> distinct (map fst (heroUsage_push m h p))"
  by (simp add: keys_heroUsage_push)


lemma foldl_heroUsage_map_of:
  "map_of (foldl (\<lambda>m player. heroUsage_push m (heroId player) (playerId player)) m ps) k =
     (if playersOfHero k ps = [] then map_of m k
      else Some ((case map_of m k of None \<Rightarrow> [] | Some l \<Rightarrow> l) @ playersOfHero k ps))"
proof (induction ps arbitrary: m)
  case Nil
  then show ?case by (simp add: playersOfHero_def)
next
  case (Cons a ps)
  show ?case
    by (simp add: Cons.IH map_of_heroUsage_push playersOfHero_def)
qed

lemma foldl_heroUsage_distinct:
  "distinct (map fst m) \<Longrightarrow>
   distinct (map fst (foldl (\<lambda>m player. heroUsage_push m (heroId player) (playerId player)) m ps))"
  by (induction ps arbitrary: m) (simp_all add: distinct_heroUsage_push)

lemma map_of_heroUsage:
  "map_of (heroUsage ps) k = (if playersOfHero k ps = [] then None else Some (playersOfHero k ps))"
  by (simp add: heroUsage_def foldl_heroUsage_map_of)

lemma distinct_heroUsage: "distinct (map fst (heroUsage ps))"
  by (simp add: heroUsage_def foldl_heroUsage_distinct)

lemma heroUsage_member:
  "(h, l) \<in> set (heroUsage ps) \<longleftrightarrow> l \<noteq> [] \<and> l = playersOfHero h ps"
  using map_of_eq_Some_iff[OF distinct_heroUsage, of ps h l]
  by (auto simp: map_of_heroUsage split: if_splits)

lemma set_heroErrors:
  "set (heroErrors ps) = {heroError h (playersOfHero h ps) | h. 1 < length (playersOfHero h ps)}"
proof (intro set_eqI iffI)
  fix e assume "e \<in> set (heroErrors ps)"
  then obtain h l where "(h, l) \<in> set (heroUsage ps)" "1 < length l" "e = heroError h l"
    by (auto simp: heroErrors_def split: if_splits)
  then show "e \<in> {heroError h (playersOfHero h ps) | h. 1 < length (playersOfHero h ps)}"
    by (auto simp: heroUsage_member)
next
  fix e assume "e \<in> {heroError h (playersOfHero h ps) | h. 1 < length (playersOfHero h ps)}"
  then obtain h where h: "e = heroError h (playersOfHero h ps)" "1 < length (playersOfHero h ps)"
    by auto
  then have "(h, playersOfHero h ps) \<in> set (heroUsage ps)"
    by (auto simp: heroUsage_member)
  with h show "e \<in> set (heroErrors ps)"
    unfolding heroErrors_def set_concat set_map by force
qed

lemma isValid_validateMatchEdit:
  "isValid (validateMatchEdit now oneYearAgo matchData playersData)
     = (errors (validateMatchEdit now oneYearAgo matchData playersData) = [])"
  by (simp add: validateMatchEdit_def Let_def)

lemma errors_validateMatchEdit:
  "errors (validateMatchEdit now oneYearAgo matchData playersData)
     = teamErrors playersData @ heroErrors playersData @ concat (map playerErrors playersData)"
  by (simp add: validateMatchEdit_def Let_def)

lemma field_teamErrors: "e \<in> set (teamErrors ps) \<Longrightarrow> field e = ''teams''"
  by (auto simp: teamErrors_def split: if_splits)

lemma field_playerErrors: "e \<in> set (playerErrors p) \<Longrightarrow> field e \<noteq> ''hero''"
  by (auto simp: playerErrors_def negativeError_def split: if_splits option.splits)

lemma distinct_playersOfHero:
  "distinct (map heroId ps) \<Longrightarrow> length (playersOfHero h ps) \<le> 1"
  unfolding playersOfHero_def
proof (induction ps)
  case Nil then show ?case by simp
next
  case (Cons a ps)
  then show ?case
    by (auto simp: filter_empty_conv image_iff)
qed

text \<open>
  Claim C6. Whenever some hero id is carried by two or more participations of the validated
  match, the result is invalid and its errors hold an entry of field \<^verbatim>\<open>hero\<close> whose message
  names that hero id and lists the player ids of all the participations that carry it, in
  input order. When the hero ids are pairwise distinct, no error of field \<^verbatim>\<open>hero\<close> is
  produced.
\<close>

theorem hero_exclusivity:
  fixes now oneYearAgo matchData playersData
  defines "r \<equiv> validateMatchEdit now oneYearAgo matchData playersData"
  shows "(\<forall>h. 1 < length (filter (\<lambda>p. heroId p = h) playersData) \<longrightarrow>
            \<not> isValid r \<and>
            (\<exists>e \<in> set (errors r). field e = ''hero'' \<and> severity e = SevError \<and>
               message e = ''Hero ID '' @ show_int h @ '' is assigned to multiple players: ''
                 @ join '', '' (map playerId (filter (\<lambda>p. heroId p = h) playersData))))
       \<and> (distinct (map heroId playersData) \<longrightarrow> (\<forall>e \<in> set (errors r). field e \<noteq> ''hero''))"
proof (intro conjI allI impI ballI)
  fix h assume h: "1 < length (filter (\<lambda>p. heroId p = h) playersData)"
  then have "heroError h (playersOfHero h playersData) \<in> set (heroErrors playersData)"
    by (auto simp: set_heroErrors playersOfHero_def)
  then have mem: "heroError h (playersOfHero h playersData) \<in> set (errors r)"
    by (simp add: r_def errors_validateMatchEdit)
  then show "\<not> isValid r"
    unfolding r_def isValid_validateMatchEdit by auto
  from mem show "\<exists>e \<in> set (errors r). field e = ''hero'' \<and> severity e = SevError \<and>
               message e = ''Hero ID '' @ show_int h @ '' is assigned to multiple players: ''
                 @ join '', '' (map playerId (filter (\<lambda>p. heroId p = h) playersData))"
    by (intro bexI[of _ "heroError h (playersOfHero h playersData)"])
       (simp_all add: heroError_def playersOfHero_def)
next
  fix e assume d: "distinct (map heroId playersData)" and e: "e \<in> set (errors r)"
  have "heroErrors playersData = []"
  proof -
    have "set (heroErrors playersData) = {}"
      using distinct_playersOfHero[OF d] by (auto simp: set_heroErrors not_less)
    then show ?thesis by simp
  qed
  with e show "field e \<noteq> ''hero''"
    by (auto simp: r_def errors_validateMatchEdit dest: field_teamErrors field_playerErrors)
qed




lemma warnings_validateMatchEdit:
  "warnings (validateMatchEdit now oneYearAgo matchData playersData)
     = sizeWarnings playersData
       @ concat (map (playerWarnings (gameLength matchData)) playersData)
       @ dateWarnings now oneYearAgo matchData"
  by (simp add: validateMatchEdit_def Let_def)

lemma filter_teams_playerWarnings:
  "filter (\<lambda>w. field w = ''teams'') (playerWarnings gl p) = []"
  by (simp add: playerWarnings_def split: option.splits)

lemma filter_teams_concat_playerWarnings:
  "filter (\<lambda>w. field w = ''teams'') (concat (map (playerWarnings gl) ps)) = []"
  by (induction ps) (simp_all add: filter_teams_playerWarnings)

lemma filter_teams_dateWarnings:
  "filter (\<lambda>w. field w = ''teams'') (dateWarnings now y m) = []"
  by (simp add: dateWarnings_def)

lemma filter_teams_sizeWarnings:
  "filter (\<lambda>w. field w = ''teams'') (sizeWarnings ps) = sizeWarnings ps"
  by (simp add: sizeWarnings_def Let_def)

lemma imbalanceWarnings_validateMatchEdit:
  "imbalanceWarnings (validateMatchEdit now y m ps) = sizeWarnings ps"
  by (simp add: imbalanceWarnings_def warnings_validateMatchEdit filter_teams_sizeWarnings
      filter_teams_concat_playerWarnings filter_teams_dateWarnings)

lemma length_sizeWarnings:
  "length (sizeWarnings ps) =
     (if 1 < \<bar>int (length (filter (\<lambda>p. team p = Titans) ps))
              - int (length (filter (\<lambda>p. team p = Atlanteans) ps))\<bar> then 1 else 0)"
  by (simp add: sizeWarnings_def Let_def)

lemma playerErrors_empty:
  assumes "\<forall>v. kills p = Some v \<longrightarrow> 0 \<le> v" "\<forall>v. deaths p = Some v \<longrightarrow> 0 \<le> v"
    "\<forall>v. assists p = Some v \<longrightarrow> 0 \<le> v" "\<forall>v. goldEarned p = Some v \<longrightarrow> 0 \<le> v"
    "\<forall>v. minionKills p = Some v \<longrightarrow> 0 \<le> v" "\<forall>l. mp_level p = Some l \<longrightarrow> 1 \<le> l \<and> l \<le> 10"
  shows "playerErrors p = []"
  using assms by (auto simp: playerErrors_def negativeError_def split: option.splits)


text \<open>
  Claim C5, as amended. A match of 3 Titans against 2 Atlanteans with pairwise distinct heroes,
  no negative counter and levels within 1 to 10 validates with \<^verbatim>\<open>isValid = true\<close> and
  without any team-size warning: the sizes differ by one only. For every roster, the result
  holds exactly one team-size warning when the sizes differ by more than one, and none
  otherwise.
\<close>

theorem validate_3v2_no_warning:
  assumes "length (filter (\<lambda>p. team p = Titans) ps) = 3"
    and "length (filter (\<lambda>p. team p = Atlanteans) ps) = 2"
    and "distinct (map heroId ps)"
    and "\<forall>p \<in> set ps. (\<forall>v. kills p = Some v \<longrightarrow> 0 \<le> v) \<and> (\<forall>v. deaths p = Some v \<longrightarrow> 0 \<le> v)
           \<and> (\<forall>v. assists p = Some v \<longrightarrow> 0 \<le> v) \<and> (\<forall>v. goldEarned p = Some v \<longrightarrow> 0 \<le> v)
           \<and> (\<forall>v. minionKills p = Some v \<longrightarrow> 0 \<le> v)
           \<and> (\<forall>l. mp_level p = Some l \<longrightarrow> 1 \<le> l \<and> l \<le> 10)"
  shows "isValid (validateMatchEdit now y m ps)
       \<and> imbalanceWarnings (validateMatchEdit now y m ps) = []
       \<and> length (imbalanceWarnings (validateMatchEdit now y m qs))
           = (if 1 < \<bar>int (length (filter (\<lambda>p. team p = Titans) qs))
                     - int (length (filter (\<lambda>p. team p = Atlanteans) qs))\<bar> then 1 else 0)"
proof (intro conjI)
  have t: "teamErrors ps = []"
    using assms(1,2) by (simp add: teamErrors_def)
  have h: "heroErrors ps = []"
  proof -
    have "set (heroErrors ps) = {}"
      using distinct_playersOfHero[OF assms(3)] by (auto simp: set_heroErrors not_less)
    then show ?thesis by simp
  qed
  have p: "concat (map playerErrors ps) = []"
    using assms(4) by (simp add: playerErrors_empty)
  show "isValid (validateMatchEdit now y m ps)"
    by (simp add: isValid_validateMatchEdit errors_validateMatchEdit t h p)
  show "imbalanceWarnings (validateMatchEdit now y m ps) = []"
    using assms(1,2) by (simp add: imbalanceWarnings_validateMatchEdit sizeWarnings_def)
  show "length (imbalanceWarnings (validateMatchEdit now y m qs))
           = (if 1 < \<bar>int (length (filter (\<lambda>p. team p = Titans) qs))
                     - int (length (filter (\<lambda>p. team p = Atlanteans) qs))\<bar> then 1 else 0)"
    by (simp only: imbalanceWarnings_validateMatchEdit length_sizeWarnings)
qed

lemma sample_simps:
  "team (sampleEntry pid t h) = t" "heroId (sampleEntry pid t h) = h"
  "playerId (sampleEntry pid t h) = pid"
  "kills (sampleEntry pid t h) = Some 3" "deaths (sampleEntry pid t h) = Some 2"
  "assists (sampleEntry pid t h) = None" "goldEarned (sampleEntry pid t h) = None"
  "minionKills (sampleEntry pid t h) = None" "mp_level (sampleEntry pid t h) = Some 4"
  by (simp_all add: sampleEntry_def)

text \<open>
  Claim C5 as stated (3 against 2 gives one team-size warning) fails on the sample roster:
  the result is valid and holds no warning of field \<^verbatim>\<open>teams\<close>.
\<close>

theorem validate_3v2_counterexample:
  "\<not> (isValid (validateMatchEdit 2000 500 sampleMatch roster3v2)
      \<and> length (imbalanceWarnings (validateMatchEdit 2000 500 sampleMatch roster3v2)) = 1)"
  by (simp add: imbalanceWarnings_validateMatchEdit sizeWarnings_def roster3v2_def sample_simps)

text \<open>The amended claim C5 at the sample roster, and at a 4 against 2 roster.\<close>

theorem validate_3v2_no_warning_witness:
  "length (filter (\<lambda>p. team p = Titans) roster3v2) = 3
   \<and> length (filter (\<lambda>p. team p = Atlanteans) roster3v2) = 2
   \<and> distinct (map heroId roster3v2)
   \<and> isValid (validateMatchEdit 2000 500 sampleMatch roster3v2)
   \<and> imbalanceWarnings (validateMatchEdit 2000 500 sampleMatch roster3v2) = []
   \<and> length (imbalanceWarnings (validateMatchEdit 2000 500 sampleMatch
         (sampleEntry ''zed'' Titans 9 # roster3v2))) = 1"
proof -
  have a: "length (filter (\<lambda>p. team p = Titans) roster3v2) = 3"
    and b: "length (filter (\<lambda>p. team p = Atlanteans) roster3v2) = 2"
    and c: "distinct (map heroId roster3v2)"
    by (simp_all add: roster3v2_def sample_simps)
  have d: "\<forall>p \<in> set roster3v2. (\<forall>v. kills p = Some v \<longrightarrow> 0 \<le> v) \<and> (\<forall>v. deaths p = Some v \<longrightarrow> 0 \<le> v)
           \<and> (\<forall>v. assists p = Some v \<longrightarrow> 0 \<le> v) \<and> (\<forall>v. goldEarned p = Some v \<longrightarrow> 0 \<le> v)
           \<and> (\<forall>v. minionKills p = Some v \<longrightarrow> 0 \<le> v)
           \<and> (\<forall>l. mp_level p = Some l \<longrightarrow> 1 \<le> l \<and> l \<le> 10)"
    by (simp add: roster3v2_def sample_simps)
  show ?thesis
    using validate_3v2_no_warning[OF a b c d, of 2000 500 sampleMatch "sampleEntry ''zed'' Titans 9 # roster3v2"] a b c
    by (simp add: roster3v2_def sample_simps)
qed

text \<open>Claim C6 at a roster where two players hold hero 7, and at a roster of distinct heroes.\<close>

theorem hero_exclusivity_witness:
  "1 < length (filter (\<lambda>p. heroId p = 7) rosterSameHero)
   \<and> \<not> isValid (validateMatchEdit 2000 500 sampleMatch rosterSameHero)
   \<and> (\<exists>e \<in> set (errors (validateMatchEdit 2000 500 sampleMatch rosterSameHero)).
          message e = ''Hero ID 7 is assigned to multiple players: ann, dee'')
   \<and> distinct (map heroId roster3v2)
   \<and> ''hero'' \<notin> set (map field (errors (validateMatchEdit 2000 500 sampleMatch roster3v2)))"
proof -
  have a: "1 < length (filter (\<lambda>p. heroId p = 7) rosterSameHero)"
    by (simp add: rosterSameHero_def sample_simps)
  have f: "filter (\<lambda>p. heroId p = 7) rosterSameHero = [sampleEntry ''ann'' Titans 7, sampleEntry ''dee'' Atlanteans 7]"
    by (simp add: rosterSameHero_def sample_simps)
  have s: "show_int 7 = ''7''" by (simp add: show_int_def digit_char_def)
  have c: "distinct (map heroId roster3v2)"
    by (simp add: roster3v2_def sample_simps)
  have msg: "''Hero ID '' @ show_int 7 @ '' is assigned to multiple players: ''
                 @ join '', '' (map playerId (filter (\<lambda>p. heroId p = 7) rosterSameHero))
             = ''Hero ID 7 is assigned to multiple players: ann, dee''"
    by (simp add: f s sample_simps)
  note T = hero_exclusivity[of rosterSameHero 2000 500 sampleMatch]
  from T a have X: "\<not> isValid (validateMatchEdit 2000 500 sampleMatch rosterSameHero) \<and>
            (\<exists>e \<in> set (errors (validateMatchEdit 2000 500 sampleMatch rosterSameHero)). field e = ''hero'' \<and> severity e = SevError \<and>
               message e = ''Hero ID '' @ show_int 7 @ '' is assigned to multiple players: ''
                 @ join '', '' (map playerId (filter (\<lambda>p. heroId p = 7) rosterSameHero)))"
    by blast
  from X have 1: "\<not> isValid (validateMatchEdit 2000 500 sampleMatch rosterSameHero)"
    by blast
  from X have 2: "\<exists>e \<in> set (errors (validateMatchEdit 2000 500 sampleMatch rosterSameHero)).
          message e = ''Hero ID 7 is assigned to multiple players: ann, dee''"
    unfolding msg by blast
  from hero_exclusivity[of roster3v2 2000 500 sampleMatch] c
  have 3: "\<forall>e \<in> set (errors (validateMatchEdit 2000 500 sampleMatch roster3v2)). field e \<noteq> ''hero''"
    by blast
  from 3 have 4: "''hero'' \<notin> set (map field (errors (validateMatchEdit 2000 500 sampleMatch roster3v2)))"
    by auto
  from a 1 2 c 4 show ?thesis by blast
qed

section \<open>Properties of the team balancing\<close>

lemma insertSorted_insort_key:
  "insertSorted (\<lambda>a b. f b - f a) x xs = insort_key (\<lambda>p. - f p) x xs"
  by (induction xs) auto

lemma js_sort_sort_key:
  "js_sort (\<lambda>a b. f b - f a) xs = sort_key (\<lambda>p. - f p) xs"
  by (induction xs) (simp_all add: js_sort_def sort_key_def insertSorted_insort_key)

lemma foldl_sum: "foldl (\<lambda>sum p. sum + weight p) (s::int) xs = s + sum_list (map weight xs)"
  by (induction xs arbitrary: s) simp_all

lemma assignPlayer_sums:
  "assignPlayer weight (t1, t2) p =
     (if sum_list (map weight t1) \<le> sum_list (map weight t2) then (t1 @ [p], t2)
      else (t1, t2 @ [p]))"
  by (simp add: assignPlayer_def foldl_sum)

lemma foldl_assignPlayer_spec:
  "foldl (assignPlayer weight) (t1, t2) ps =
     (t1 @ fst (spec_greedy weight (sum_list (map weight t1)) (sum_list (map weight t2)) ps),
      t2 @ snd (spec_greedy weight (sum_list (map weight t1)) (sum_list (map weight t2)) ps))"
proof (induction ps arbitrary: t1 t2)
  case Nil
  then show ?case by simp
next
  case (Cons p ps)
  show ?case
  proof (cases "sum_list (map weight t1) \<le> sum_list (map weight t2)")
    case True
    then show ?thesis
      by (simp add: assignPlayer_sums Cons.IH Let_def)
  next
    case False
    then show ?thesis
      by (simp add: assignPlayer_sums Cons.IH Let_def)
  qed
qed

lemma distribute_spec: "distribute weight ps = spec_greedy weight 0 0 ps"
  by (simp add: distribute_def foldl_assignPlayer_spec)

lemma generateBalancedTeams_spec:
  "generateBalancedTeams allPlayers playerIds = spec_balanceBySkill allPlayers playerIds"
  by (simp add: generateBalancedTeams_def spec_balanceBySkill_def Let_def js_sort_sort_key
      distribute_spec not_less)

lemma mset_spec_greedy:
  "mset (fst (spec_greedy weight a b ps)) + mset (snd (spec_greedy weight a b ps)) = mset ps"
  by (induction ps arbitrary: a b) (simp_all add: Let_def)

lemma sorted_descending:
  "sorted_wrt (\<lambda>x y. f x \<ge> (f y :: int)) (sort_key (\<lambda>p. - f p) xs)"
proof -
  have "sorted (map (\<lambda>p. - f p) (sort_key (\<lambda>p. - f p) xs))"
    by (rule sorted_sort_key)
  then show ?thesis
    by (simp add: sorted_map) 
qed


lemma mset_insertSorted: "mset (insertSorted compare x xs) = add_mset x (mset xs)"
  by (induction xs) simp_all

lemma mset_js_sort: "mset (js_sort compare xs) = mset xs"
  by (induction xs) (simp_all add: js_sort_def mset_insertSorted)

lemma mset_distribute:
  "mset (fst (distribute weight ps)) + mset (snd (distribute weight ps)) = mset ps"
  by (simp add: distribute_spec mset_spec_greedy)

lemma mset_team_ids:
  "mset (map p_id (fst (distribute weight (js_sort compare sel)))
         @ map p_id (snd (distribute weight (js_sort compare sel))))
     = mset (map p_id sel)"
proof -
  have "mset (map p_id (fst (distribute weight (js_sort compare sel)))
         @ map p_id (snd (distribute weight (js_sort compare sel))))
        = image_mset p_id (mset (fst (distribute weight (js_sort compare sel)))
            + mset (snd (distribute weight (js_sort compare sel))))"
    by simp
  also have "\<dots> = image_mset p_id (mset sel)"
    by (simp only: mset_distribute mset_js_sort)
  finally show ?thesis by simp
qed

lemma resolvable_ids:
  assumes "distinct (map p_id allPlayers)"
  shows "distinct (map p_id (filter (\<lambda>p. p_id p \<in> set playerIds) allPlayers))"
    and "set (map p_id (filter (\<lambda>p. p_id p \<in> set playerIds) allPlayers))
           = set playerIds \<inter> set (map p_id allPlayers)"
    and "length (filter (\<lambda>p. p_id p \<in> set playerIds) allPlayers)
           = card (set playerIds \<inter> set (map p_id allPlayers))"
proof -
  let ?sel = "filter (\<lambda>p. p_id p \<in> set playerIds) allPlayers"
  show d: "distinct (map p_id ?sel)"
    using assms by (simp add: distinct_map_filter)
  show s: "set (map p_id ?sel) = set playerIds \<inter> set (map p_id allPlayers)"
    by auto
  have "length ?sel = length (map p_id ?sel)" by simp
  also have "\<dots> = card (set (map p_id ?sel))"
    using d by (simp only: distinct_card)
  finally show "length ?sel = card (set playerIds \<inter> set (map p_id allPlayers))"
    by (simp only: s)
qed

lemma partition_of_ids:
  assumes "mset (xs @ ys) = mset zs" "distinct zs" "set zs = S"
  shows "set xs \<union> set ys = S \<and> set xs \<inter> set ys = {} \<and> distinct xs \<and> distinct ys"
proof -
  have "distinct (xs @ ys)"
    using assms(1,2) by (metis mset_eq_imp_distinct_iff)
  moreover have "set (xs @ ys) = set zs"
    using assms(1) by (metis mset_eq_setD)
  ultimately show ?thesis
    using assms(3) by auto
qed

lemma mset_short_eq: "mset ys = mset zs \<Longrightarrow> length zs \<le> 1 \<Longrightarrow> ys = zs"
  by (cases zs; cases ys) auto

lemma sort_four:
  assumes m: "mset xs = {#a, b, c, d#}"
    and k: "f a < f b" "f b < f c" "f c < (f d :: int)"
  shows "sort_key f xs = [a, b, c, d]"
proof (rule properties_for_sort_key)
  show "mset [a, b, c, d] = mset xs" using m by simp
  show "sorted (map f [a, b, c, d])" using k by simp
  fix x assume x: "x \<in> set [a, b, c, d]"
  have "mset (filter (\<lambda>y. f x = f y) xs) = filter_mset (\<lambda>y. f x = f y) {#a, b, c, d#}"
    by (simp only: mset_filter m)
  also have "\<dots> = mset (filter (\<lambda>y. f x = f y) [a, b, c, d])"
    by simp
  finally have e: "mset (filter (\<lambda>y. f x = f y) xs) = mset (filter (\<lambda>y. f x = f y) [a, b, c, d])" .
  have "length (filter (\<lambda>y. f x = f y) [a, b, c, d]) \<le> 1"
    using x k by auto
  from mset_short_eq[OF e this]
  show "filter (\<lambda>y. f x = f y) [a, b, c, d] = filter (\<lambda>y. f x = f y) xs"
    by simp
qed

text \<open>
  Claim C4. \<^verbatim>\<open>generateBalancedTeams\<close> computes what the specification describes: the selected
  players are put in descending order of display rating (the sorted list is a permutation of
  the selected players, ordered by non-increasing display rating), and each one in turn
  joins the team whose cumulative display rating is lower, team 1 on a tie. In particular
  four selected players of display ratings 2000, 1800, 1600 and 1400 are split into
  2000 with 1400 against 1800 with 1600.
\<close>

theorem balanceBySkill_greedy:
  "generateBalancedTeams allPlayers playerIds = spec_balanceBySkill allPlayers playerIds
   \<and> sorted_wrt (\<lambda>x y. getDisplayRating x \<ge> getDisplayRating y)
        (js_sort (\<lambda>a b. getDisplayRating b - getDisplayRating a) xs)
   \<and> mset (js_sort (\<lambda>a b. getDisplayRating b - getDisplayRating a) xs) = mset xs
   \<and> (mset (filter (\<lambda>p. p_id p \<in> set ids) stored) = {#a, b, c, d#}
        \<and> getDisplayRating a = 2000 \<and> getDisplayRating b = 1800
        \<and> getDisplayRating c = 1600 \<and> getDisplayRating d = 1400
      \<longrightarrow> generateBalancedTeams stored ids = \<lparr>team1 = [p_id a, p_id d], team2 = [p_id b, p_id c]\<rparr>)"
proof (intro conjI impI)
  show "generateBalancedTeams allPlayers playerIds = spec_balanceBySkill allPlayers playerIds"
    by (rule generateBalancedTeams_spec)
  show "sorted_wrt (\<lambda>x y. getDisplayRating x \<ge> getDisplayRating y)
        (js_sort (\<lambda>a b. getDisplayRating b - getDisplayRating a) xs)"
    by (simp only: js_sort_sort_key sorted_descending)
  show "mset (js_sort (\<lambda>a b. getDisplayRating b - getDisplayRating a) xs) = mset xs"
    by (rule mset_js_sort)
next
  assume h: "mset (filter (\<lambda>p. p_id p \<in> set ids) stored) = {#a, b, c, d#}
        \<and> getDisplayRating a = 2000 \<and> getDisplayRating b = 1800
        \<and> getDisplayRating c = 1600 \<and> getDisplayRating d = 1400"
  let ?sel = "filter (\<lambda>p. p_id p \<in> set ids) stored"
  from h have m: "mset ?sel = {#a, b, c, d#}" by blast
  have l: "length ?sel = 4"
    using mset_eq_length[of ?sel "[a, b, c, d]"] m by simp
  have s: "sort_key (\<lambda>p. - getDisplayRating p) ?sel = [a, b, c, d]"
    using h by (intro sort_four m) simp_all
  show "generateBalancedTeams stored ids = \<lparr>team1 = [p_id a, p_id d], team2 = [p_id b, p_id c]\<rparr>"
    using h by (simp add: generateBalancedTeams_spec spec_balanceBySkill_def l s Let_def)
qed

lemma fourPlayers_simps:
  "p_id (samplePlayer n r) = n" "getDisplayRating (samplePlayer n r) = r"
  by (simp_all add: samplePlayer_def getDisplayRating_def)

text \<open>Claim C4 at four stored players listed in another order than that of their ratings.\<close>

theorem balanceBySkill_greedy_witness:
  "mset (filter (\<lambda>p. p_id p \<in> set [''ann'', ''bob'', ''cy'', ''dee'']) fourPlayers)
     = {#samplePlayer ''ann'' 2000, samplePlayer ''bob'' 1800, samplePlayer ''cy'' 1600,
         samplePlayer ''dee'' 1400#}
   \<and> generateBalancedTeams fourPlayers [''ann'', ''bob'', ''cy'', ''dee'']
       = \<lparr>team1 = [''ann'', ''dee''], team2 = [''bob'', ''cy'']\<rparr>"
proof -
  have m: "mset (filter (\<lambda>p. p_id p \<in> set [''ann'', ''bob'', ''cy'', ''dee'']) fourPlayers)
     = {#samplePlayer ''ann'' 2000, samplePlayer ''bob'' 1800, samplePlayer ''cy'' 1600,
         samplePlayer ''dee'' 1400#}"
    by (simp add: fourPlayers_def fourPlayers_simps)
  note T = balanceBySkill_greedy[of fourPlayers "[]" "[]" "[''ann'', ''bob'', ''cy'', ''dee'']" fourPlayers
      "samplePlayer ''ann'' 2000" "samplePlayer ''bob'' 1800" "samplePlayer ''cy'' 1600"
      "samplePlayer ''dee'' 1400"]
  have r: "getDisplayRating (samplePlayer ''ann'' 2000) = 2000 \<and> getDisplayRating (samplePlayer ''bob'' 1800) = 1800
        \<and> getDisplayRating (samplePlayer ''cy'' 1600) = 1600 \<and> getDisplayRating (samplePlayer ''dee'' 1400) = 1400"
    by (simp add: fourPlayers_simps)
  from T m r
  have "generateBalancedTeams fourPlayers [''ann'', ''bob'', ''cy'', ''dee'']
       = \<lparr>team1 = [p_id (samplePlayer ''ann'' 2000), p_id (samplePlayer ''dee'' 1400)],
          team2 = [p_id (samplePlayer ''bob'' 1800), p_id (samplePlayer ''cy'' 1600)]\<rparr>"
    by blast
  then have "generateBalancedTeams fourPlayers [''ann'', ''bob'', ''cy'', ''dee'']
       = \<lparr>team1 = [''ann'', ''dee''], team2 = [''bob'', ''cy'']\<rparr>"
    by (simp only: fourPlayers_simps)
  with m show ?thesis by blast
qed

text \<open>
  Claim C10. The stored players have pairwise distinct ids (the id is the key of the store),
  and the resolvable ids of an input list are those of its ids that belong to a stored
  player; when every input id resolves they are the input ids. For an input list with at
  least four resolvable ids, both balancing functions return two teams that partition them:
  the teams together hold exactly the resolvable ids, so no other player appears; they are
  disjoint, so every selected player is on exactly one team; and neither repeats an id. For
  fewer than four resolvable ids both functions return two empty teams.
\<close>

theorem balanced_teams_partition:
  assumes stored: "distinct (map p_id allPlayers)"
  shows "(4 \<le> card (set playerIds \<inter> set (map p_id allPlayers))
    \<longrightarrow> set (team1 (generateBalancedTeams allPlayers playerIds))
          \<union> set (team2 (generateBalancedTeams allPlayers playerIds))
          = set playerIds \<inter> set (map p_id allPlayers)
        \<and> set (team1 (generateBalancedTeams allPlayers playerIds))
          \<inter> set (team2 (generateBalancedTeams allPlayers playerIds)) = {}
        \<and> distinct (team1 (generateBalancedTeams allPlayers playerIds))
        \<and> distinct (team2 (generateBalancedTeams allPlayers playerIds))
        \<and> set (team1 (generateBalancedTeamsByExperience allPlayers playerIds))
          \<union> set (team2 (generateBalancedTeamsByExperience allPlayers playerIds))
          = set playerIds \<inter> set (map p_id allPlayers)
        \<and> set (team1 (generateBalancedTeamsByExperience allPlayers playerIds))
          \<inter> set (team2 (generateBalancedTeamsByExperience allPlayers playerIds)) = {}
        \<and> distinct (team1 (generateBalancedTeamsByExperience allPlayers playerIds))
        \<and> distinct (team2 (generateBalancedTeamsByExperience allPlayers playerIds)))
   \<and> (card (set playerIds \<inter> set (map p_id allPlayers)) < 4
    \<longrightarrow> generateBalancedTeams allPlayers playerIds = \<lparr>team1 = [], team2 = []\<rparr>
        \<and> generateBalancedTeamsByExperience allPlayers playerIds = \<lparr>team1 = [], team2 = []\<rparr>)"
proof (intro conjI impI)
  let ?sel = "filter (\<lambda>p. p_id p \<in> set playerIds) allPlayers"
  note l = resolvable_ids(3)[OF stored, of playerIds]
  assume "card (set playerIds \<inter> set (map p_id allPlayers)) < 4"
  with l have "length ?sel < 4" by simp
  then show "generateBalancedTeams allPlayers playerIds = \<lparr>team1 = [], team2 = []\<rparr>"
    and "generateBalancedTeamsByExperience allPlayers playerIds = \<lparr>team1 = [], team2 = []\<rparr>"
    by (simp_all add: generateBalancedTeams_def generateBalancedTeamsByExperience_def)
next
  assume a: "4 \<le> card (set playerIds \<inter> set (map p_id allPlayers))"
  let ?sel = "filter (\<lambda>p. p_id p \<in> set playerIds) allPlayers"
  note d = resolvable_ids(1)[OF stored, of playerIds]
    and s = resolvable_ids(2)[OF stored, of playerIds]
    and l = resolvable_ids(3)[OF stored, of playerIds]
  from a l have n: "\<not> length ?sel < 4" by simp
  let ?r = "generateBalancedTeams allPlayers playerIds"
  let ?e = "generateBalancedTeamsByExperience allPlayers playerIds"
  have "mset (team1 ?r @ team2 ?r) = mset (map p_id ?sel)"
    using n by (simp only: generateBalancedTeams_def Let_def if_False TeamSplit.simps mset_team_ids)
  from partition_of_ids[OF this d s]
  show "set (team1 ?r) \<union> set (team2 ?r) = set playerIds \<inter> set (map p_id allPlayers)"
    and "set (team1 ?r) \<inter> set (team2 ?r) = {}"
    and "distinct (team1 ?r)" and "distinct (team2 ?r)"
    by simp_all
  have "mset (team1 ?e @ team2 ?e) = mset (map p_id ?sel)"
    using n by (simp only: generateBalancedTeamsByExperience_def Let_def if_False TeamSplit.simps mset_team_ids)
  from partition_of_ids[OF this d s]
  show "set (team1 ?e) \<union> set (team2 ?e) = set playerIds \<inter> set (map p_id allPlayers)"
    and "set (team1 ?e) \<inter> set (team2 ?e) = {}"
    and "distinct (team1 ?e)" and "distinct (team2 ?e)"
    by simp_all
qed

lemma sample_ids:
  "map p_id fourPlayers = [''dee'', ''ann'', ''cy'', ''bob'']"
  "map p_id threePlayers = [''ann'', ''bob'', ''cy'']"
  by (simp_all add: fourPlayers_def threePlayers_def fourPlayers_simps)

text \<open>
  Claim C10 at five input ids, one of them repeated, that resolve to four stored players, and
  at four input ids that resolve to three.
\<close>

theorem balanced_teams_partition_witness:
  "distinct (map p_id fourPlayers)
   \<and> set [''ann'', ''ann'', ''bob'', ''cy'', ''dee''] \<subseteq> set (map p_id fourPlayers)
   \<and> 4 \<le> card (set [''ann'', ''ann'', ''bob'', ''cy'', ''dee''] \<inter> set (map p_id fourPlayers))
   \<and> set (team1 (generateBalancedTeams fourPlayers [''ann'', ''ann'', ''bob'', ''cy'', ''dee'']))
       \<union> set (team2 (generateBalancedTeams fourPlayers [''ann'', ''ann'', ''bob'', ''cy'', ''dee'']))
     = set [''ann'', ''ann'', ''bob'', ''cy'', ''dee'']
   \<and> set (team1 (generateBalancedTeams fourPlayers [''ann'', ''ann'', ''bob'', ''cy'', ''dee'']))
       \<inter> set (team2 (generateBalancedTeams fourPlayers [''ann'', ''ann'', ''bob'', ''cy'', ''dee'']))
     = {}
   \<and> distinct (map p_id threePlayers)
   \<and> set [''ann'', ''ann'', ''bob'', ''cy''] \<subseteq> set (map p_id threePlayers)
   \<and> card (set [''ann'', ''ann'', ''bob'', ''cy''] \<inter> set (map p_id threePlayers)) < 4
   \<and> generateBalancedTeams threePlayers [''ann'', ''ann'', ''bob'', ''cy''] = \<lparr>team1 = [], team2 = []\<rparr>"
proof -
  have d4: "distinct (map p_id fourPlayers)" and d3: "distinct (map p_id threePlayers)"
    by (simp_all add: sample_ids)
  have s4: "set [''ann'', ''ann'', ''bob'', ''cy'', ''dee''] \<subseteq> set (map p_id fourPlayers)"
    and s3: "set [''ann'', ''ann'', ''bob'', ''cy''] \<subseteq> set (map p_id threePlayers)"
    by (simp_all add: sample_ids)
  have e4: "set [''ann'', ''ann'', ''bob'', ''cy'', ''dee''] \<inter> set (map p_id fourPlayers)
      = set [''ann'', ''ann'', ''bob'', ''cy'', ''dee'']"
    using s4 by blast
  have e3: "set [''ann'', ''ann'', ''bob'', ''cy''] \<inter> set (map p_id threePlayers)
      = set [''ann'', ''ann'', ''bob'', ''cy'']"
    using s3 by blast
  have c4: "4 \<le> card (set [''ann'', ''ann'', ''bob'', ''cy'', ''dee''] \<inter> set (map p_id fourPlayers))"
    unfolding e4 by simp
  have c3: "card (set [''ann'', ''ann'', ''bob'', ''cy''] \<inter> set (map p_id threePlayers)) < 4"
    unfolding e3 by simp
  from balanced_teams_partition[OF d4, of "[''ann'', ''ann'', ''bob'', ''cy'', ''dee'']"] c4
  have p: "set (team1 (generateBalancedTeams fourPlayers [''ann'', ''ann'', ''bob'', ''cy'', ''dee'']))
       \<union> set (team2 (generateBalancedTeams fourPlayers [''ann'', ''ann'', ''bob'', ''cy'', ''dee'']))
     = set [''ann'', ''ann'', ''bob'', ''cy'', ''dee''] \<inter> set (map p_id fourPlayers)
   \<and> set (team1 (generateBalancedTeams fourPlayers [''ann'', ''ann'', ''bob'', ''cy'', ''dee'']))
       \<inter> set (team2 (generateBalancedTeams fourPlayers [''ann'', ''ann'', ''bob'', ''cy'', ''dee'']))
     = {}"
    by blast
  from balanced_teams_partition[OF d3, of "[''ann'', ''ann'', ''bob'', ''cy'']"] c3
  have q: "generateBalancedTeams threePlayers [''ann'', ''ann'', ''bob'', ''cy''] = \<lparr>team1 = [], team2 = []\<rparr>"
    by blast
  from p have p': "set (team1 (generateBalancedTeams fourPlayers [''ann'', ''ann'', ''bob'', ''cy'', ''dee'']))
       \<union> set (team2 (generateBalancedTeams fourPlayers [''ann'', ''ann'', ''bob'', ''cy'', ''dee'']))
     = set [''ann'', ''ann'', ''bob'', ''cy'', ''dee'']
   \<and> set (team1 (generateBalancedTeams fourPlayers [''ann'', ''ann'', ''bob'', ''cy'', ''dee'']))
       \<inter> set (team2 (generateBalancedTeams fourPlayers [''ann'', ''ann'', ''bob'', ''cy'', ''dee'']))
     = {}"
    by (simp only: e4)
  from d4 s4 c4 p' d3 s3 c3 q show ?thesis by blast
qed

section \<open>Properties of the recalculation\<close>

subsection \<open>Keyed writes\<close>

lemma p_id_stampDevice [simp]: "p_id (stampDevice env p) = p_id p"
  by (simp add: stampDevice_def)

lemma p_id_updatedPlayer [simp]: "p_id (updatedPlayer env c p stats r) = p_id p"
  by (simp add: updatedPlayer_def)

lemma p_id_written [simp]: "p_id (written env c st p) = p_id p"
  by (simp add: written_def)

lemma p_id_applyAll: "(\<And>q. p_id (w q) = p_id q) \<Longrightarrow> p_id (applyAll w qs y) = p_id y"
  by (induction qs arbitrary: y) auto

lemma map_key_replace:
  "key x = k \<Longrightarrow> map key (map (\<lambda>y. if key y = k then x else y) xs) = map key xs"
  by (induction xs) auto

lemma putByKey_present:
  "key x \<in> key ` set xs \<Longrightarrow> putByKey key x xs = map (\<lambda>y. if key y = key x then x else y) xs"
  by (simp add: putByKey_def)

lemma players_savePlayer:
  "players (savePlayer env p s) = putByKey p_id (stampDevice env p) (players s)"
  and matches_savePlayer: "matches (savePlayer env p s) = matches s"
  and matchPlayers_savePlayer: "matchPlayers (savePlayer env p s) = matchPlayers s"
  by (simp_all add: savePlayer_def)

lemma saveAll_prefix:
  "saveAll env c st ps s =
     ((if length (savedPrefix st ps) = length ps then Inr () else Inl TypeError),
      foldl (\<lambda>s p. savePlayer env (updatedPlayer env c p (the (playerStatsMap st (p_id p)))
                                   (the (playerRatings st (p_id p)))) s) s (savedPrefix st ps))"
proof (induction ps arbitrary: s)
  case Nil
  then show ?case by (simp add: savedPrefix_def)
next
  case (Cons p ps)
  have le: "length (savedPrefix st ps) \<le> length ps"
    by (simp add: savedPrefix_def length_takeWhile_le)
  show ?case
  proof (cases "playerStatsMap st (p_id p) \<noteq> None \<and> playerRatings st (p_id p) \<noteq> None")
    case True
    then obtain stats r where sr: "playerStatsMap st (p_id p) = Some stats" "playerRatings st (p_id p) = Some r"
      by auto
    have sp: "savedPrefix st (p # ps) = p # savedPrefix st ps"
      using True by (simp add: savedPrefix_def)
    show ?thesis
      by (simp add: sr sp Cons.IH)
  next
    case False
    then have sp: "savedPrefix st (p # ps) = []"
      by (simp add: savedPrefix_def)
    from False show ?thesis
      by (auto simp: sp split: option.splits)
  qed
qed

lemma foldl_savePlayer_frame:
  "matches (foldl (\<lambda>s p. savePlayer env (f p) s) s qs) = matches s"
  "matchPlayers (foldl (\<lambda>s p. savePlayer env (f p) s) s qs) = matchPlayers s"
  by (induction qs arbitrary: s) (simp_all add: matches_savePlayer matchPlayers_savePlayer)

lemma foldl_savePlayer_players:
  assumes "p_id ` set qs \<subseteq> p_id ` set (players s)" and "\<And>q. p_id (f q) = p_id q"
  shows "players (foldl (\<lambda>s p. savePlayer env (f p) s) s qs)
         = map (applyAll (\<lambda>q. stampDevice env (f q)) qs) (players s)"
  using assms(1)
proof (induction qs arbitrary: s)
  case Nil
  then show ?case by simp
next
  case (Cons q qs)
  have pres: "p_id (stampDevice env (f q)) \<in> p_id ` set (players s)"
    using Cons.prems by (simp add: assms(2))
  have step: "players (savePlayer env (f q) s)
      = map (\<lambda>y. if p_id y = p_id (stampDevice env (f q)) then stampDevice env (f q) else y) (players s)"
    by (simp only: players_savePlayer putByKey_present[OF pres])
  have "map p_id (players (savePlayer env (f q) s)) = map p_id (players s)"
    unfolding step by (rule map_key_replace) (simp add: assms(2))
  then have "set (map p_id (players (savePlayer env (f q) s))) = set (map p_id (players s))"
    by simp
  then have ids: "p_id ` set (players (savePlayer env (f q) s)) = p_id ` set (players s)"
    by simp
  have "players (foldl (\<lambda>s p. savePlayer env (f p) s) (savePlayer env (f q) s) qs)
         = map (applyAll (\<lambda>q. stampDevice env (f q)) qs) (players (savePlayer env (f q) s))"
    using Cons.prems by (intro Cons.IH) (simp add: ids)
  then show ?case
    by (simp add: step comp_def)
qed

subsection \<open>What a run writes\<close>

lemma ratingState_written:
  "ratingState (written env c st q) = ratingOutput env st (p_id q)"
  by (simp add: ratingState_def written_def stampDevice_def updatedPlayer_def ratingOutput_def Let_def)

lemma ratingState_applyAll:
  "ratingState (applyAll (written env c st) qs y)
     = (if p_id y \<in> p_id ` set qs then ratingOutput env st (p_id y) else ratingState y)"
proof (induction qs arbitrary: y)
  case Nil
  then show ?case by simp
next
  case (Cons q qs)
  show ?case
    by (auto simp: Cons.IH ratingState_written)
qed

lemma p_id_applyAll_written [simp]: "p_id (applyAll (written env c st) qs y) = p_id y"
  by (rule p_id_applyAll) simp

lemma ids_savedPrefix:
  "map p_id (savedPrefix st ps)
     = takeWhile (\<lambda>k. playerStatsMap st k \<noteq> None \<and> playerRatings st k \<noteq> None) (map p_id ps)"
  by (simp add: savedPrefix_def takeWhile_map comp_def)

lemma savedPrefix_subset: "set (savedPrefix st ps) \<subseteq> set ps"
  by (auto simp: savedPrefix_def dest: set_takeWhileD)

lemma saveAll_result:
  "saveAll env c st (players s) s =
     ((if length (savedPrefix st (players s)) = length (players s) then Inr () else Inl TypeError),
      s\<lparr>players := map (applyAll (written env c st) (savedPrefix st (players s))) (players s)\<rparr>)"
proof -
  let ?f = "\<lambda>p. updatedPlayer env c p (the (playerStatsMap st (p_id p))) (the (playerRatings st (p_id p)))"
  let ?s' = "foldl (\<lambda>s p. savePlayer env (?f p) s) s (savedPrefix st (players s))"
  have w: "(\<lambda>q. stampDevice env (?f q)) = written env c st"
    by (simp add: written_def fun_eq_iff)
  have sub: "p_id ` set (savedPrefix st (players s)) \<subseteq> p_id ` set (players s)"
    using savedPrefix_subset[of st "players s"] by blast
  have "players ?s' = map (applyAll (\<lambda>q. stampDevice env (?f q)) (savedPrefix st (players s))) (players s)"
    by (rule foldl_savePlayer_players[OF sub]) simp
  then have "players ?s' = map (applyAll (written env c st) (savedPrefix st (players s))) (players s)"
    by (simp only: w)
  moreover have "matches ?s' = matches s" "matchPlayers ?s' = matchPlayers s"
    by (simp_all only: foldl_savePlayer_frame)
  ultimately have "?s' = s\<lparr>players := map (applyAll (written env c st) (savedPrefix st (players s))) (players s)\<rparr>"
    by (intro Store.equality) simp_all
  then show ?thesis
    by (simp only: saveAll_prefix)
qed

lemma initialReplay_ids:
  "map p_id ps = map p_id ps' \<Longrightarrow> initialReplay env ps = initialReplay env ps'"
proof -
  have a: "foldl (\<lambda>m player. m(p_id player \<mapsto> c)) m0 qs = foldl (\<lambda>m k. m(k \<mapsto> c)) m0 (map p_id qs)"
    for c :: 'c and m0 and qs :: "DBPlayer list"
    by (induction qs arbitrary: m0) simp_all
  assume "map p_id ps = map p_id ps'"
  then show ?thesis
    by (simp add: initialReplay_def a)
qed

lemma getMatchPlayers_cong:
  "matchPlayers s = matchPlayers s' \<Longrightarrow> getMatchPlayers s mid = getMatchPlayers s' mid"
  by (simp add: getMatchPlayers_def)

lemma processMatches_cong:
  "matchPlayers s = matchPlayers s' \<Longrightarrow> processMatches env s ms st = processMatches env s' ms st"
  by (induction ms arbitrary: st) (simp_all add: getMatchPlayers_def split: sum.splits)

lemma recalculate_cases:
  obtains (thrown) e where
      "processMatches env s (js_sort (\<lambda>a b. date a - date b) (matches s)) (initialReplay env (players s)) = Inl e"
      "recalculatePlayerStats env c s = (Inl e, s)"
  | (saved) st where
      "processMatches env s (js_sort (\<lambda>a b. date a - date b) (matches s)) (initialReplay env (players s)) = Inr st"
      "recalculatePlayerStats env c s =
        ((if length (savedPrefix st (players s)) = length (players s) then Inr () else Inl TypeError),
         s\<lparr>players := map (applyAll (written env c st) (savedPrefix st (players s))) (players s)\<rparr>)"
proof (cases "processMatches env s (js_sort (\<lambda>a b. date a - date b) (matches s)) (initialReplay env (players s))")
  case (Inl e)
  then show ?thesis
    by (intro thrown[of e]) (simp_all add: recalculatePlayerStats_def)
next
  case (Inr st)
  then show ?thesis
    by (intro saved[of st]) (simp_all add: recalculatePlayerStats_def saveAll_result Let_def)
qed

text \<open>
  Claim C1. Running the recalculation a second time on the store that a first run leaves
  behind, with nothing written in between, ends the same way (normally or with the same
  error) and leaves the same players in the same order, each with the same \<open>mu\<close>, \<open>sigma\<close>,
  \<open>ordinal\<close>, \<open>elo\<close>, \<open>totalGames\<close>, \<open>wins\<close> and \<open>losses\<close> as after the first run, whatever the
  clock reads in the two runs.
\<close>

theorem recalculation_deterministic:
  "fst (recalculatePlayerStats env clock2 (snd (recalculatePlayerStats env clock1 s)))
     = fst (recalculatePlayerStats env clock1 s)
   \<and> map p_id (players (snd (recalculatePlayerStats env clock2 (snd (recalculatePlayerStats env clock1 s)))))
     = map p_id (players (snd (recalculatePlayerStats env clock1 s)))
   \<and> map ratingState (players (snd (recalculatePlayerStats env clock2 (snd (recalculatePlayerStats env clock1 s)))))
     = map ratingState (players (snd (recalculatePlayerStats env clock1 s)))"
proof (cases rule: recalculate_cases[of env s clock1])
  case (thrown e)
  have "recalculatePlayerStats env clock2 s = (Inl e, s)"
    using thrown(1) by (simp add: recalculatePlayerStats_def)
  then show ?thesis
    by (simp add: thrown(2))
next
  case (saved st)
  let ?L = "players s"
  let ?Q = "savedPrefix st ?L"
  let ?L1 = "map (applyAll (written env clock1 st) ?Q) ?L"
  let ?s1 = "s\<lparr>players := ?L1\<rparr>"
  let ?Q1 = "savedPrefix st ?L1"
  have s1: "snd (recalculatePlayerStats env clock1 s) = ?s1"
    by (simp add: saved(2))
  have ids: "map p_id ?L1 = map p_id ?L"
    by (simp add: comp_def)
  have idsQ: "map p_id ?Q1 = map p_id ?Q"
    by (simp only: ids_savedPrefix ids)
  have lenQ: "length ?Q1 = length ?Q"
    using arg_cong[OF idsQ, of length] by simp
  have setQ: "p_id ` set ?Q1 = p_id ` set ?Q"
    using arg_cong[OF idsQ, of set] by simp
  have pm: "processMatches env ?s1 (js_sort (\<lambda>a b. date a - date b) (matches ?s1)) (initialReplay env (players ?s1))
      = Inr st"
  proof -
    have "initialReplay env (players ?s1) = initialReplay env ?L"
      by (rule initialReplay_ids) (simp add: comp_def)
    moreover have "processMatches env ?s1 ms st0 = processMatches env s ms st0" for ms st0
      by (rule processMatches_cong) simp
    ultimately show ?thesis
      using saved(1) by simp
  qed
  have r2: "recalculatePlayerStats env clock2 ?s1 =
        ((if length ?Q1 = length ?L1 then Inr () else Inl TypeError),
         ?s1\<lparr>players := map (applyAll (written env clock2 st) ?Q1) ?L1\<rparr>)"
  proof (cases rule: recalculate_cases[of env ?s1 clock2])
    case (thrown e)
    with pm show ?thesis by simp
  next
    case (saved st')
    with pm have "st' = st" by simp
    with saved(2) show ?thesis by simp
  qed
  have same: "ratingState (applyAll (written env clock2 st) ?Q1 y) = ratingState y" if "y \<in> set ?L1" for y
  proof -
    from that obtain y0 where y: "y = applyAll (written env clock1 st) ?Q y0"
      by auto
    show ?thesis
      by (simp add: ratingState_applyAll setQ y)
  qed
  have "fst (recalculatePlayerStats env clock2 ?s1) = fst (recalculatePlayerStats env clock1 s)"
    by (simp add: r2 saved(2) lenQ)
  moreover have "map p_id (players (snd (recalculatePlayerStats env clock2 ?s1))) = map p_id ?L1"
    by (simp add: r2 comp_def)
  moreover have "map ratingState (players (snd (recalculatePlayerStats env clock2 ?s1))) = map ratingState ?L1"
    unfolding r2 using same by (simp add: comp_def)
  ultimately show ?thesis
    unfolding s1 by simp
qed


lemma statsOk_upd: "statsOk m \<Longrightarrow> ps_wins z + ps_losses z = ps_totalGames z \<Longrightarrow> statsOk (m(k \<mapsto> z))"
  by (simp add: statsOk_def)

lemma statsOk_foldl_zero:
  "statsOk m \<Longrightarrow>
    statsOk (foldl (\<lambda>m player. m(p_id player \<mapsto> \<lparr>ps_totalGames = 0, ps_wins = 0, ps_losses = 0\<rparr>)) m
               (qs :: DBPlayer list))"
proof (induction qs arbitrary: m)
  case Nil
  then show ?case by simp
next
  case (Cons q qs)
  have "statsOk (m(p_id q \<mapsto> \<lparr>ps_totalGames = 0, ps_wins = 0, ps_losses = 0\<rparr>))"
    by (rule statsOk_upd[OF Cons.prems]) simp
  from Cons.IH[OF this] show ?case by simp
qed

lemma statsOk_initial: "statsOk (playerStatsMap (initialReplay env ps))"
proof -
  have "statsOk Map.empty" by (simp add: statsOk_def)
  from statsOk_foldl_zero[OF this] show ?thesis
    by (simp add: initialReplay_def)
qed

lemma statsOk_countGame: "statsOk m \<Longrightarrow> statsOk (countGame w m mp)"
proof (cases "m (playerId mp)")
  case None
  assume "statsOk m"
  with None show ?thesis by (simp add: countGame_def)
next
  case (Some z)
  assume ok: "statsOk m"
  with Some have z: "ps_wins z + ps_losses z = ps_totalGames z"
    by (simp add: statsOk_def)
  show ?thesis
    unfolding countGame_def Some option.case
    by (rule statsOk_upd[OF ok]) (simp add: z)
qed

lemma statsOk_foldl_countGame: "statsOk m \<Longrightarrow> statsOk (foldl (countGame w) m entries)"
  by (induction entries arbitrary: m) (simp_all add: statsOk_countGame)

lemma statsOk_processMatch:
  "statsOk (playerStatsMap st) \<Longrightarrow> processMatch env entries match st = Inr st'
     \<Longrightarrow> statsOk (playerStatsMap st')"
  unfolding processMatch_def Let_def
  by (auto simp: statsOk_foldl_countGame split: if_splits)

lemma statsOk_processMatches:
  "statsOk (playerStatsMap st) \<Longrightarrow> processMatches env s ms st = Inr st'
     \<Longrightarrow> statsOk (playerStatsMap st')"
proof (induction ms arbitrary: st)
  case Nil
  then show ?case by simp
next
  case (Cons m ms)
  from Cons.prems(2) obtain st1 where
    1: "processMatch env (getMatchPlayers s (m_id m)) m st = Inr st1"
    and 2: "processMatches env s ms st1 = Inr st'"
    by (auto split: sum.splits)
  from Cons.IH[OF statsOk_processMatch[OF Cons.prems(1) 1] 2] show ?case .
qed

lemma takeWhile_full: "length (takeWhile P xs) = length xs \<Longrightarrow> takeWhile P xs = xs"
proof (induction xs)
  case Nil
  then show ?case by simp
next
  case (Cons x xs)
  then show ?case by (cases "P x") simp_all
qed

lemma savedPrefix_full:
  "length (savedPrefix st ps) = length ps \<Longrightarrow> savedPrefix st ps = ps"
  unfolding savedPrefix_def by (rule takeWhile_full)

lemma savedPrefix_full_Some:
  assumes "length (savedPrefix st ps) = length ps" "p \<in> set ps"
  shows "playerStatsMap st (p_id p) \<noteq> None \<and> playerRatings st (p_id p) \<noteq> None"
proof -
  have "p \<in> set (savedPrefix st ps)"
    using assms by (simp add: savedPrefix_full)
  then show ?thesis
    unfolding savedPrefix_def by (auto dest: set_takeWhileD)
qed

lemma recalculate_success:
  assumes "recalculatePlayerStats env c s = (Inr (), s')"
  obtains st where
    "processMatches env s (js_sort (\<lambda>a b. date a - date b) (matches s)) (initialReplay env (players s)) = Inr st"
    "savedPrefix st (players s) = players s"
    "s' = s\<lparr>players := map (applyAll (written env c st) (players s)) (players s)\<rparr>"
proof (cases rule: recalculate_cases[of env s c])
  case (thrown e)
  with assms show ?thesis by simp
next
  case (saved st)
  from saved(2) assms have l: "length (savedPrefix st (players s)) = length (players s)"
    by (auto split: if_splits)
  then have f: "savedPrefix st (players s) = players s"
    by (rule savedPrefix_full)
  from saved(2) assms have "s' = s\<lparr>players := map (applyAll (written env c st) (savedPrefix st (players s))) (players s)\<rparr>"
    by simp
  with f have "s' = s\<lparr>players := map (applyAll (written env c st) (players s)) (players s)\<rparr>"
    by simp
  with saved(1) f show ?thesis
    by (rule that)
qed

text \<open>
  Claim C2. After a run of the recalculation that returns normally, every stored player
  record satisfies \<open>wins + losses = totalGames\<close>.
\<close>

theorem tally_invariant:
  assumes "recalculatePlayerStats env readClock s = (Inr (), s')"
  shows "\<forall>p \<in> set (players s'). wins p + losses p = totalGames p"
proof
  fix p assume p: "p \<in> set (players s')"
  from assms obtain st where
    pm: "processMatches env s (js_sort (\<lambda>a b. date a - date b) (matches s)) (initialReplay env (players s)) = Inr st"
    and full: "savedPrefix st (players s) = players s"
    and s': "s' = s\<lparr>players := map (applyAll (written env readClock st) (players s)) (players s)\<rparr>"
    by (rule recalculate_success)
  from p s' obtain y where y: "y \<in> set (players s)" "p = applyAll (written env readClock st) (players s) y"
    by auto
  have rs: "ratingState p = ratingOutput env st (p_id y)"
    using y by (simp add: ratingState_applyAll)
  have "playerStatsMap st (p_id y) \<noteq> None"
    using savedPrefix_full_Some[of st "players s" y] full y(1) by simp
  then obtain z where z: "playerStatsMap st (p_id y) = Some z" by auto
  have "statsOk (playerStatsMap st)"
    using statsOk_processMatches[OF statsOk_initial pm] .
  with z have "ps_wins z + ps_losses z = ps_totalGames z"
    by (simp add: statsOk_def)
  with rs z show "wins p + losses p = totalGames p"
    by (simp add: ratingState_def ratingOutput_def Let_def)
qed

lemma countGame_other: "playerId mp \<noteq> pid \<Longrightarrow> countGame w m mp pid = m pid"
  by (simp add: countGame_def split: option.splits)

lemma countGame_same:
  "m (playerId mp) = Some z \<Longrightarrow>
     \<exists>z'. countGame w m mp (playerId mp) = Some z' \<and> ps_totalGames z' = ps_totalGames z + 1"
  by (simp add: countGame_def)

lemma foldl_countGame_absent:
  "pid \<notin> playerId ` set es \<Longrightarrow> foldl (countGame w) m es pid = m pid"
  by (induction es arbitrary: m) (auto simp: countGame_other)

lemma foldl_countGame_total:
  "m pid = Some z \<Longrightarrow>
     \<exists>z'. foldl (countGame w) m es pid = Some z'
        \<and> ps_totalGames z' = ps_totalGames z + length (filter (\<lambda>mp. playerId mp = pid) es)"
proof (induction es arbitrary: m z)
  case Nil
  then show ?case by simp
next
  case (Cons e es)
  show ?case
  proof (cases "playerId e = pid")
    case True
    from countGame_same[of m e z w] Cons.prems True
    obtain z1 where z1: "countGame w m e pid = Some z1" "ps_totalGames z1 = ps_totalGames z + 1"
      by auto
    from Cons.IH[of "countGame w m e" z1] z1 True show ?thesis
      by auto
  next
    case False
    then have "countGame w m e pid = Some z"
      using Cons.prems by (simp add: countGame_other)
    from Cons.IH[of "countGame w m e" z] this False show ?thesis
      by auto
  qed
qed

lemma foldl_upd_absent:
  "\<forall>i \<in> set is. ids ! i \<noteq> pid \<Longrightarrow> foldl (\<lambda>m i. m(ids ! i := f i)) m is pid = m pid"
  by (induction "is" arbitrary: m) auto

lemma storeRatings_absent:
  "pid \<notin> set ids \<Longrightarrow> storeRatings m ids res pid = m pid"
  unfolding storeRatings_def
  by (rule foldl_upd_absent) (auto simp: in_set_conv_nth)

lemma processMatch_skip:
  "\<not> replayed s m \<Longrightarrow> processMatch env (getMatchPlayers s (m_id m)) m st = Inr st"
  by (auto simp: processMatch_def replayed_def Let_def)

lemma processMatch_absent:
  assumes "processMatch env es m st = Inr st'" and "pid \<notin> playerId ` set es"
  shows "playerStatsMap st' pid = playerStatsMap st pid \<and> playerRatings st' pid = playerRatings st pid"
proof -
  have a: "pid \<notin> set (map playerId (filter P es))" for P
    using assms(2) by auto
  from assms(1) show ?thesis
    unfolding processMatch_def Let_def
    by (auto simp: foldl_countGame_absent[OF assms(2)] storeRatings_absent[OF a] split: if_splits)
qed

lemma processMatch_present:
  assumes "processMatch env (getMatchPlayers s (m_id m)) m st = Inr st'"
    and "replayed s m" and "pid \<in> playerId ` set (getMatchPlayers s (m_id m))"
    and "playerStatsMap st pid = Some z"
  shows "\<exists>z'. playerStatsMap st' pid = Some z' \<and> ps_totalGames z < ps_totalGames z'"
proof -
  let ?es = "getMatchPlayers s (m_id m)"
  from assms(3) have "filter (\<lambda>mp. playerId mp = pid) ?es \<noteq> []"
    by (auto simp: filter_empty_conv)
  then have pos: "0 < length (filter (\<lambda>mp. playerId mp = pid) ?es)"
    by simp
  from assms(1,2) have "playerStatsMap st' = foldl (countGame (winningTeam m)) (playerStatsMap st) ?es"
    unfolding processMatch_def Let_def replayed_def
    by (auto split: if_splits)
  with foldl_countGame_total[of "playerStatsMap st" pid z "winningTeam m" ?es] assms(4) pos show ?thesis
    by auto
qed

lemma processMatch_mono:
  assumes "processMatch env es m st = Inr st'" and "playerStatsMap st pid = Some z"
  shows "\<exists>z'. playerStatsMap st' pid = Some z' \<and> ps_totalGames z \<le> ps_totalGames z'"
proof -
  from assms(1) have "playerStatsMap st' = playerStatsMap st
      \<or> playerStatsMap st' = foldl (countGame (winningTeam m)) (playerStatsMap st) es"
    unfolding processMatch_def Let_def
    by (auto split: if_splits)
  with foldl_countGame_total[of "playerStatsMap st" pid z "winningTeam m" es] assms(2) show ?thesis
    by auto
qed

lemma processMatches_mono:
  "processMatches env s ms st = Inr st' \<Longrightarrow> playerStatsMap st pid = Some z
     \<Longrightarrow> \<exists>z'. playerStatsMap st' pid = Some z' \<and> ps_totalGames z \<le> ps_totalGames z'"
proof (induction ms arbitrary: st z)
  case Nil
  then show ?case by simp
next
  case (Cons m ms)
  from Cons.prems(1) obtain st1 where
    1: "processMatch env (getMatchPlayers s (m_id m)) m st = Inr st1"
    and 2: "processMatches env s ms st1 = Inr st'"
    by (auto split: sum.splits)
  from processMatch_mono[OF 1 Cons.prems(2)] obtain z1 where
    z1: "playerStatsMap st1 pid = Some z1" "ps_totalGames z \<le> ps_totalGames z1"
    by auto
  from Cons.IH[OF 2 z1(1)] z1(2) show ?case
    by (meson le_trans)
qed

lemma processMatches_absent:
  "processMatches env s ms st = Inr st'
   \<Longrightarrow> \<forall>m \<in> set ms. \<not> (replayed s m \<and> pid \<in> playerId ` set (getMatchPlayers s (m_id m)))
   \<Longrightarrow> playerStatsMap st' pid = playerStatsMap st pid \<and> playerRatings st' pid = playerRatings st pid"
proof (induction ms arbitrary: st)
  case Nil
  then show ?case by simp
next
  case (Cons m ms)
  from Cons.prems(1) obtain st1 where
    1: "processMatch env (getMatchPlayers s (m_id m)) m st = Inr st1"
    and 2: "processMatches env s ms st1 = Inr st'"
    by (auto split: sum.splits)
  have "playerStatsMap st1 pid = playerStatsMap st pid \<and> playerRatings st1 pid = playerRatings st pid"
  proof (cases "replayed s m")
    case True
    with Cons.prems(2) have "pid \<notin> playerId ` set (getMatchPlayers s (m_id m))"
      by simp
    from processMatch_absent[OF 1 this] show ?thesis .
  next
    case False
    from processMatch_skip[OF False, of env st] 1 show ?thesis
      by simp
  qed
  moreover have "playerStatsMap st' pid = playerStatsMap st1 pid \<and> playerRatings st' pid = playerRatings st1 pid"
    using Cons.prems(2) by (intro Cons.IH[OF 2]) simp
  ultimately show ?case by simp
qed

lemma processMatches_present:
  "processMatches env s ms st = Inr st'
   \<Longrightarrow> \<exists>m \<in> set ms. replayed s m \<and> pid \<in> playerId ` set (getMatchPlayers s (m_id m))
   \<Longrightarrow> playerStatsMap st pid = Some z
   \<Longrightarrow> \<exists>z'. playerStatsMap st' pid = Some z' \<and> ps_totalGames z < ps_totalGames z'"
proof (induction ms arbitrary: st z)
  case Nil
  then show ?case by simp
next
  case (Cons m ms)
  from Cons.prems(1) obtain st1 where
    1: "processMatch env (getMatchPlayers s (m_id m)) m st = Inr st1"
    and 2: "processMatches env s ms st1 = Inr st'"
    by (auto split: sum.splits)
  show ?case
  proof (cases "replayed s m \<and> pid \<in> playerId ` set (getMatchPlayers s (m_id m))")
    case True
    from processMatch_present[OF 1 _ _ Cons.prems(3)] True obtain z1 where
      z1: "playerStatsMap st1 pid = Some z1" "ps_totalGames z < ps_totalGames z1"
      by auto
    from processMatches_mono[OF 2 z1(1)] z1(2) show ?thesis
      by (meson less_le_trans)
  next
    case False
    with Cons.prems(2) have ex: "\<exists>m \<in> set ms. replayed s m \<and> pid \<in> playerId ` set (getMatchPlayers s (m_id m))"
      by auto
    from processMatch_mono[OF 1 Cons.prems(3)] obtain z1 where
      z1: "playerStatsMap st1 pid = Some z1" "ps_totalGames z \<le> ps_totalGames z1"
      by auto
    from Cons.IH[OF 2 ex z1(1)] z1(2) show ?thesis
      by (meson le_less_trans)
  qed
qed

lemma initialReplay_lookup:
  assumes "pid \<in> p_id ` set ps"
  shows "playerStatsMap (initialReplay env ps) pid = Some \<lparr>ps_totalGames = 0, ps_wins = 0, ps_losses = 0\<rparr>"
    and "playerRatings (initialReplay env ps) pid = Some (rating_default env)"
proof -
  have a: "foldl (\<lambda>m player. m(p_id player \<mapsto> c)) m0 qs pid
      = (if pid \<in> p_id ` set qs then Some c else m0 pid)"
    for c :: 'c and m0 and qs :: "DBPlayer list"
    by (induction qs arbitrary: m0) auto
  show "playerStatsMap (initialReplay env ps) pid = Some \<lparr>ps_totalGames = 0, ps_wins = 0, ps_losses = 0\<rparr>"
    using assms by (simp add: initialReplay_def a)
  show "playerRatings (initialReplay env ps) pid = Some (rating_default env)"
    using assms by (simp add: initialReplay_def a)
qed

lemma find_map_same_id:
  "(\<And>y. p_id (g y) = p_id y) \<Longrightarrow>
     find (\<lambda>q. p_id q = pid) (map g xs) = map_option g (find (\<lambda>q. p_id q = pid) xs)"
  by (induction xs) simp_all

lemma applyAll_absent:
  "(\<And>q. p_id (w q) = p_id q) \<Longrightarrow> p_id y \<notin> p_id ` set qs \<Longrightarrow> applyAll w qs y = y"
  by (induction qs arbitrary: y) auto

lemma applyAll_distinct:
  assumes w: "\<And>q. p_id (w q) = p_id q"
  shows "distinct (map p_id qs) \<Longrightarrow> y \<in> set qs \<Longrightarrow> applyAll w qs y = w y"
proof (induction qs)
  case Nil
  then show ?case by simp
next
  case (Cons q qs)
  show ?case
  proof (cases "y = q")
    case True
    have "p_id (w q) \<notin> p_id ` set qs"
      using Cons.prems(1) by (simp add: w)
    from applyAll_absent[of w "w q" qs, OF w this] True show ?thesis
      by (simp add: w)
  next
    case False
    with Cons.prems have y: "y \<in> set qs" and "p_id y \<noteq> p_id q"
      by (auto simp: image_iff)
    with Cons.IH Cons.prems(1) show ?thesis
      by (simp add: w)
  qed
qed

lemma set_js_sort: "set (js_sort compare xs) = set xs"
  using arg_cong[OF mset_js_sort[of compare xs], of set_mset] by simp

lemma takesPart_iff:
  "takesPart s pid \<longleftrightarrow>
     (\<exists>m \<in> set (matches s). replayed s m \<and> pid \<in> playerId ` set (getMatchPlayers s (m_id m)))"
  by (auto simp: takesPart_def list_ex_iff)

lemma getPlayer_Some: "getPlayer s pid = Some p \<Longrightarrow> p \<in> set (players s) \<and> p_id p = pid"
  by (auto simp: getPlayer_def find_Some_iff)

text \<open>
  Claim C9. Let the stored player ids be pairwise distinct and let a run of the recalculation
  return normally. Then every stored player is stored afterwards with the same id, name and
  creation date. A player without a participation in a replayed match (a match with both
  teams non-empty) gets the default \<open>mu\<close> and \<open>sigma\<close>, the ordinal of the default belief, and
  keeps its \<open>lastPlayed\<close>; a player with such a participation gets \<open>lastPlayed\<close> set to the
  clock reading taken when its record is built.
\<close>

theorem recalculation_frame:
  assumes run: "recalculatePlayerStats env readClock s = (Inr (), s')"
    and dist: "distinct (map p_id (players s))"
    and p: "getPlayer s pid = Some p"
  shows "\<exists>p'. getPlayer s' pid = Some p'
     \<and> p_id p' = p_id p \<and> p_name p' = p_name p \<and> dateCreated p' = dateCreated p
     \<and> (\<not> takesPart s pid \<longrightarrow>
          mu p' = Some (r_mu (rating_default env)) \<and> sigma p' = Some (r_sigma (rating_default env))
          \<and> ordinal p' = Some (ordinal_of env (rating_default env))
          \<and> lastPlayed p' = lastPlayed p)
     \<and> (takesPart s pid \<longrightarrow> lastPlayed p' = readClock pid)"
proof -
  let ?ms = "js_sort (\<lambda>a b. date a - date b) (matches s)"
  let ?st0 = "initialReplay env (players s)"
  from run obtain st where
    pm: "processMatches env s ?ms ?st0 = Inr st"
    and full: "savedPrefix st (players s) = players s"
    and s': "s' = s\<lparr>players := map (applyAll (written env readClock st) (players s)) (players s)\<rparr>"
    by (rule recalculate_success)
  from getPlayer_Some[OF p] have pin: "p \<in> set (players s)" and pid: "p_id p = pid"
    by simp_all
  have "getPlayer s' pid = map_option (applyAll (written env readClock st) (players s)) (getPlayer s pid)"
    unfolding getPlayer_def s' by (simp add: find_map_same_id)
  also have "\<dots> = Some (applyAll (written env readClock st) (players s) p)"
    by (simp add: p)
  also have "applyAll (written env readClock st) (players s) p = written env readClock st p"
    by (rule applyAll_distinct[OF _ dist pin]) simp
  finally have g: "getPlayer s' pid = Some (written env readClock st p)" .
  have pidin: "pid \<in> p_id ` set (players s)"
    using pin pid by auto
  note init = initialReplay_lookup[OF pidin, of env]
  have idle: "mu (written env readClock st p) = Some (r_mu (rating_default env))
      \<and> sigma (written env readClock st p) = Some (r_sigma (rating_default env))
      \<and> ordinal (written env readClock st p) = Some (ordinal_of env (rating_default env))
      \<and> lastPlayed (written env readClock st p) = lastPlayed p" if "\<not> takesPart s pid"
  proof -
    from that have "\<forall>m \<in> set ?ms. \<not> (replayed s m \<and> pid \<in> playerId ` set (getMatchPlayers s (m_id m)))"
      by (simp add: takesPart_iff set_js_sort)
    from processMatches_absent[OF pm this] init
    have "playerStatsMap st pid = Some \<lparr>ps_totalGames = 0, ps_wins = 0, ps_losses = 0\<rparr>"
      and "playerRatings st pid = Some (rating_default env)"
      by simp_all
    then show ?thesis
      by (simp add: written_def stampDevice_def updatedPlayer_def pid)
  qed
  have busy: "lastPlayed (written env readClock st p) = readClock pid" if "takesPart s pid"
  proof -
    from that have "\<exists>m \<in> set ?ms. replayed s m \<and> pid \<in> playerId ` set (getMatchPlayers s (m_id m))"
      by (simp add: takesPart_iff set_js_sort)
    from processMatches_present[OF pm this init(1)]
    obtain z where "playerStatsMap st pid = Some z" "0 < ps_totalGames z"
      by auto
    then show ?thesis
      by (simp add: written_def stampDevice_def updatedPlayer_def pid)
  qed
  have "p_id (written env readClock st p) = p_id p \<and> p_name (written env readClock st p) = p_name p
      \<and> dateCreated (written env readClock st p) = dateCreated p"
    by (simp add: written_def stampDevice_def updatedPlayer_def)
  with g idle busy show ?thesis
    by blast
qed

lemma sample_fields:
  "p_id (samplePlayer n r) = n" "p_name (samplePlayer n r) = n" "lastPlayed (samplePlayer n r) = 0"
  "dateCreated (samplePlayer n r) = 0" "p_deviceId (samplePlayer n r) = None"
  "p_level (samplePlayer n r) = Some 1"
  by (simp_all add: samplePlayer_def)

lemma sampleStore_run:
  "fst (recalculatePlayerStats sampleEnv sampleClock sampleStore) = Inr ()"
  by (simp add: recalculatePlayerStats_def sampleStore_def sampleEnv_def sampleMatch_def sampleEntry_def
      samplePlayer_def js_sort_def getMatchPlayers_def initialReplay_def processMatch_def Let_def
      storeRatings_def nth_opt_def sampleRate_def countGame_def savePlayer_def stampDevice_def
      updatedPlayer_def putByKey_def)

lemmas sample_defs =
  recalculatePlayerStats_def sampleStore_def sampleEnv_def sampleMatch_def sampleEntry_def
  samplePlayer_def js_sort_def getMatchPlayers_def initialReplay_def processMatch_def Let_def
  storeRatings_def nth_opt_def sampleRate_def countGame_def savePlayer_def stampDevice_def
  updatedPlayer_def putByKey_def sampleClock_def

lemma sampleStore_players:
  "map ratingState (players (snd (recalculatePlayerStats sampleEnv sampleClock sampleStore)))
     = [(Some 26, Some (15 / 2), Some (7 / 2), 1340, 1, 1, 0),
        (Some 24, Some (15 / 2), Some (3 / 2), 1260, 1, 0, 1),
        (Some 25, Some (25 / 3), Some 0, 1200, 0, 0, 0)]"
  by (simp add: sample_defs ratingState_def js_round_def)

text \<open>Claim C2 at the sample store: one replayed match, one player who did not play.\<close>

theorem tally_invariant_witness:
  "recalculatePlayerStats sampleEnv sampleClock sampleStore
     = (Inr (), snd (recalculatePlayerStats sampleEnv sampleClock sampleStore))
   \<and> list_all (\<lambda>p. wins p + losses p = totalGames p)
        (players (snd (recalculatePlayerStats sampleEnv sampleClock sampleStore)))
   \<and> map ratingState (players (snd (recalculatePlayerStats sampleEnv sampleClock sampleStore)))
     = [(Some 26, Some (15 / 2), Some (7 / 2), 1340, 1, 1, 0),
        (Some 24, Some (15 / 2), Some (3 / 2), 1260, 1, 0, 1),
        (Some 25, Some (25 / 3), Some 0, 1200, 0, 0, 0)]"
proof -
  have e: "recalculatePlayerStats sampleEnv sampleClock sampleStore
     = (Inr (), snd (recalculatePlayerStats sampleEnv sampleClock sampleStore))"
    using sampleStore_run by (simp add: prod_eq_iff)
  from tally_invariant[OF e]
  have a: "list_all (\<lambda>p. wins p + losses p = totalGames p)
        (players (snd (recalculatePlayerStats sampleEnv sampleClock sampleStore)))"
    by (simp add: list_all_iff)
  from e a sampleStore_players show ?thesis by blast
qed

text \<open>Claim C9 at the sample store, for a player who did not play and for one who did.\<close>

theorem recalculation_frame_witness:
  "getPlayer sampleStore ''cy'' = Some (samplePlayer ''cy'' 1200)
   \<and> getPlayer sampleStore ''ann'' = Some (samplePlayer ''ann'' 1200)
   \<and> distinct (map p_id (players sampleStore))
   \<and> \<not> takesPart sampleStore ''cy'' \<and> takesPart sampleStore ''ann''
   \<and> (\<exists>p'. getPlayer (snd (recalculatePlayerStats sampleEnv sampleClock sampleStore)) ''cy'' = Some p'
          \<and> p_name p' = ''cy'' \<and> mu p' = Some 25 \<and> lastPlayed p' = 0)
   \<and> (\<exists>p'. getPlayer (snd (recalculatePlayerStats sampleEnv sampleClock sampleStore)) ''ann'' = Some p'
          \<and> p_name p' = ''ann'' \<and> lastPlayed p' = 5000)"
proof -
  have e: "recalculatePlayerStats sampleEnv sampleClock sampleStore
     = (Inr (), snd (recalculatePlayerStats sampleEnv sampleClock sampleStore))"
    using sampleStore_run by (simp add: prod_eq_iff)
  have d: "distinct (map p_id (players sampleStore))"
    by (simp add: sampleStore_def sample_fields)
  have c: "getPlayer sampleStore ''cy'' = Some (samplePlayer ''cy'' 1200)"
    and a: "getPlayer sampleStore ''ann'' = Some (samplePlayer ''ann'' 1200)"
    by (simp_all add: getPlayer_def sampleStore_def sample_fields)
  have nc: "\<not> takesPart sampleStore ''cy''" and na: "takesPart sampleStore ''ann''"
    by (simp_all add: takesPart_def replayed_def getMatchPlayers_def sampleStore_def sampleMatch_def
        sampleEntry_def)
  from recalculation_frame[OF e d c] nc
  have 1: "\<exists>p'. getPlayer (snd (recalculatePlayerStats sampleEnv sampleClock sampleStore)) ''cy'' = Some p'
          \<and> p_name p' = ''cy'' \<and> mu p' = Some 25 \<and> lastPlayed p' = 0"
    by (auto simp: sample_fields sampleEnv_def)
  from recalculation_frame[OF e d a] na
  have 2: "\<exists>p'. getPlayer (snd (recalculatePlayerStats sampleEnv sampleClock sampleStore)) ''ann'' = Some p'
          \<and> p_name p' = ''ann'' \<and> lastPlayed p' = 5000"
    by (auto simp: sample_fields sampleClock_def)
  from c a d nc na 1 2 show ?thesis by blast
qed

section \<open>Properties of recording and deleting a match\<close>

lemma find_replace:
  assumes "\<And>y. key y = k \<longleftrightarrow> P y"
  shows "find P (map (\<lambda>y. if key y = key x then x else y) xs)
      = (if key x = k \<and> key x \<in> key ` set xs then Some x else find P xs)"
proof (induction xs)
  case Nil
  then show ?case by simp
next
  case (Cons a xs)
  show ?case
  proof (cases "key a = key x")
    case True
    then show ?thesis
      using assms[of a] assms[of x] Cons.IH by auto
  next
    case False
    then show ?thesis
      using assms[of a] assms[of x] Cons.IH by auto
  qed
qed

lemma find_putByKey:
  assumes "\<And>y. key y = k \<longleftrightarrow> P y"
  shows "find P (putByKey key x xs) = (if key x = k then Some x else find P xs)"
proof (cases "key x \<in> key ` set xs")
  case True
  then show ?thesis
    by (simp add: putByKey_def find_replace[of key k P, OF assms])
next
  case False
  have "find P xs = None" if "key x = k"
  proof -
    have "\<not> P y" if "y \<in> set xs" for y
    proof
      assume "P y"
      then have "key y = k" by (simp add: assms)
      with \<open>key x = k\<close> \<open>y \<in> set xs\<close> False show False by (metis imageI)
    qed
    then show ?thesis by (auto simp: find_None_iff)
  qed
  moreover have "find P (xs @ [x]) = (case find P xs of None \<Rightarrow> find P [x] | Some y \<Rightarrow> Some y)"
    by (induction xs) simp_all
  ultimately show ?thesis
    using False assms[of x] by (auto simp: putByKey_def split: option.splits)
qed

lemma getPlayer_savePlayer:
  "getPlayer (savePlayer env x s) k = (if p_id x = k then Some (stampDevice env x) else getPlayer s k)"
proof -
  have "find (\<lambda>p. p_id p = k) (putByKey p_id (stampDevice env x) (players s))
      = (if p_id (stampDevice env x) = k then Some (stampDevice env x) else find (\<lambda>p. p_id p = k) (players s))"
    by (rule find_putByKey) simp
  then show ?thesis
    by (simp add: getPlayer_def savePlayer_def stampDevice_def)
qed

lemma getPlayer_id: "getPlayer s k = Some p \<Longrightarrow> p_id p = k"
  by (auto simp: getPlayer_def find_Some_iff)

lemma p_level_stampDevice [simp]: "p_level (stampDevice env p) = p_level p"
  by (simp add: stampDevice_def)

lemma ensurePlayer_other:
  "k \<noteq> pd_id playerInfo \<Longrightarrow> getPlayer (ensurePlayer env clk s playerInfo) k = getPlayer s k"
  by (auto simp: ensurePlayer_def createPlayer_def getPlayer_savePlayer newPlayer_def
      dest: getPlayer_id split: option.splits)

lemma ensurePlayer_existing:
  assumes "getPlayer s (pd_id playerInfo) = Some p"
  shows "\<exists>p'. getPlayer (ensurePlayer env clk s playerInfo) (pd_id playerInfo) = Some p'
     \<and> p_level p' = (if pd_level playerInfo \<noteq> None
                         \<and> (p_level p = None \<or> the (pd_level playerInfo) > the (p_level p))
                      then pd_level playerInfo else p_level p)"
  using assms getPlayer_id[OF assms]
  by (auto simp: ensurePlayer_def getPlayer_savePlayer split: option.splits)

lemma levelLe_refl [simp]: "levelLe a a"
  by (simp add: levelLe_def split: option.splits)

lemma levelLe_trans: "levelLe a b \<Longrightarrow> levelLe b c \<Longrightarrow> levelLe a c"
  by (auto simp: levelLe_def split: option.splits)

lemma ensurePlayer_mono:
  assumes "getPlayer s k = Some q"
  shows "\<exists>q'. getPlayer (ensurePlayer env clk s playerInfo) k = Some q' \<and> levelLe (p_level q) (p_level q')"
proof (cases "k = pd_id playerInfo")
  case True
  from ensurePlayer_existing[of s playerInfo q env clk] assms True
  show ?thesis
    by (auto simp: levelLe_def split: option.splits if_splits)
next
  case False
  with assms show ?thesis
    by (simp add: ensurePlayer_other)
qed

lemma foldl_ensurePlayer_other:
  "k \<notin> pd_id ` set pds \<Longrightarrow> getPlayer (foldl (ensurePlayer env clk) s pds) k = getPlayer s k"
  by (induction pds arbitrary: s) (simp_all add: ensurePlayer_other)

lemma foldl_ensurePlayer_mono:
  "getPlayer s k = Some q \<Longrightarrow>
     \<exists>q'. getPlayer (foldl (ensurePlayer env clk) s pds) k = Some q' \<and> levelLe (p_level q) (p_level q')"
proof (induction pds arbitrary: s q)
  case Nil
  then show ?case by simp
next
  case (Cons a pds)
  from ensurePlayer_mono[OF Cons.prems, of env clk a] obtain q1 where
    q1: "getPlayer (ensurePlayer env clk s a) k = Some q1" "levelLe (p_level q) (p_level q1)"
    by auto
  from Cons.IH[OF q1(1)] q1(2) show ?case
    by (auto intro: levelLe_trans)
qed

lemma foldl_ensurePlayer_existing:
  assumes "distinct (map pd_id pds)" "playerInfo \<in> set pds" "getPlayer s (pd_id playerInfo) = Some p"
  shows "\<exists>p'. getPlayer (foldl (ensurePlayer env clk) s pds) (pd_id playerInfo) = Some p'
     \<and> p_level p' = (if pd_level playerInfo \<noteq> None
                         \<and> (p_level p = None \<or> the (pd_level playerInfo) > the (p_level p))
                      then pd_level playerInfo else p_level p)"
proof -
  from assms(2) obtain xs ys where split: "pds = xs @ playerInfo # ys"
    by (auto simp: in_set_conv_decomp)
  with assms(1) have nx: "pd_id playerInfo \<notin> pd_id ` set xs" and ny: "pd_id playerInfo \<notin> pd_id ` set ys"
    by auto
  let ?s1 = "foldl (ensurePlayer env clk) s xs"
  have "getPlayer ?s1 (pd_id playerInfo) = Some p"
    using assms(3) by (simp add: foldl_ensurePlayer_other[OF nx])
  from ensurePlayer_existing[OF this, of env clk]
  have "\<exists>p'. getPlayer (foldl (ensurePlayer env clk) (ensurePlayer env clk ?s1 playerInfo) ys) (pd_id playerInfo) = Some p'
     \<and> p_level p' = (if pd_level playerInfo \<noteq> None
                         \<and> (p_level p = None \<or> the (pd_level playerInfo) > the (p_level p))
                      then pd_level playerInfo else p_level p)"
    by (simp only: foldl_ensurePlayer_other[OF ny])
  then show ?thesis
    by (simp add: split)
qed

lemma players_saveMatch [simp]: "players (saveMatch env m s) = players s"
  by (simp add: saveMatch_def Let_def)

lemma players_saveMatchPlayer [simp]: "players (saveMatchPlayer env mp s) = players s"
  by (simp add: saveMatchPlayer_def Let_def)

lemma players_foldl_saveMatchPlayer [simp]:
  "players (foldl (\<lambda>s mp. saveMatchPlayer env mp s) s es) = players s"
  by (induction es arbitrary: s) simp_all

lemma getPlayer_players: "players s = players s' \<Longrightarrow> getPlayer s k = getPlayer s' k"
  by (simp add: getPlayer_def)

lemma p_level_applyAll_written:
  assumes "distinct (map p_id L)" "y \<in> set L"
  shows "set qs \<subseteq> set L \<Longrightarrow> p_id z = p_id y \<Longrightarrow> p_level z = p_level y
    \<Longrightarrow> p_level (applyAll (written env c st) qs z) = p_level y"
proof (induction qs arbitrary: z)
  case Nil
  then show ?case by simp
next
  case (Cons q qs)
  from assms(1) have inj: "inj_on p_id (set L)"
    by (simp add: distinct_map)
  show ?case
  proof (cases "p_id z = p_id q")
    case True
    with Cons.prems(2) have "p_id q = p_id y" by simp
    with inj Cons.prems(1) assms(2) have "q = y"
      by (auto dest: inj_onD)
    then have "p_id (written env c st q) = p_id y" "p_level (written env c st q) = p_level y"
      by (simp_all add: written_def updatedPlayer_def)
    from Cons.IH[OF _ this] Cons.prems(1) True show ?thesis
      by simp
  next
    case False
    from Cons.IH[OF _ Cons.prems(2,3)] Cons.prems(1) False show ?thesis
      by simp
  qed
qed

lemma distinct_putByKey:
  "distinct (map key xs) \<Longrightarrow> distinct (map key (putByKey key x xs))"
proof (cases "key x \<in> key ` set xs")
  case True
  assume "distinct (map key xs)"
  moreover have "map key (map (\<lambda>y. if key y = key x then x else y) xs) = map key xs"
    by (rule map_key_replace) simp
  ultimately show ?thesis
    using True by (simp add: putByKey_def del: map_map)
next
  case False
  assume "distinct (map key xs)"
  with False show ?thesis
    by (simp add: putByKey_def)
qed

lemma distinct_savePlayer:
  "distinct (map p_id (players s)) \<Longrightarrow> distinct (map p_id (players (savePlayer env x s)))"
  by (simp add: savePlayer_def distinct_putByKey)

lemma distinct_ensurePlayer:
  "distinct (map p_id (players s)) \<Longrightarrow> distinct (map p_id (players (ensurePlayer env clk s info)))"
  by (auto simp: ensurePlayer_def createPlayer_def distinct_savePlayer split: option.splits)

lemma distinct_foldl_ensurePlayer:
  "distinct (map p_id (players s))
    \<Longrightarrow> distinct (map p_id (players (foldl (ensurePlayer env clk) s pds)))"
  by (induction pds arbitrary: s) (simp_all add: distinct_ensurePlayer)

lemma recalculate_getPlayer_level:
  assumes "distinct (map p_id (players s))" "getPlayer s k = Some p"
  shows "\<exists>p'. getPlayer (snd (recalculatePlayerStats env c s)) k = Some p' \<and> p_level p' = p_level p"
proof (cases rule: recalculate_cases[of env s c])
  case (thrown e)
  with assms(2) show ?thesis by simp
next
  case (saved st)
  let ?g = "applyAll (written env c st) (savedPrefix st (players s))"
  from getPlayer_Some[OF assms(2)] have pin: "p \<in> set (players s)"
    by simp
  have "getPlayer (snd (recalculatePlayerStats env c s)) k = map_option ?g (getPlayer s k)"
    unfolding getPlayer_def saved(2) by (simp add: find_map_same_id)
  then have "getPlayer (snd (recalculatePlayerStats env c s)) k = Some (?g p)"
    by (simp add: assms(2))
  moreover have "p_level (?g p) = p_level p"
    by (rule p_level_applyAll_written[OF assms(1) pin savedPrefix_subset]) simp_all
  ultimately show ?thesis by simp
qed

lemma players_persistMatch:
  "players (persistMatch env clk uuid matchData playerData s)
     = players (foldl (ensurePlayer env clk) s playerData)"
  by (simp add: persistMatch_def Let_def)

lemma snd_recordMatch:
  "isValid (validateNewMatch now oneYearAgo matchData playerData) \<Longrightarrow>
     snd (recordMatch env clk uuid now oneYearAgo matchData playerData s)
       = snd (recalculatePlayerStats env (atRecalculation clk)
               (persistMatch env clk uuid matchData playerData s))"
  by (simp add: recordMatch_def Let_def split: prod.splits sum.splits)

text \<open>
  Claim C8. Let a match be recorded whose data pass the validation, among participants with
  pairwise distinct ids, on a store keyed by player id. A participant who is stored already
  is stored afterwards with the incoming level when that level is defined and the stored
  level is undefined or strictly smaller, and with the stored level unchanged otherwise.
  For every stored player, the level stored after \<^verbatim>\<open>recordMatch\<close> (whether it records the
  match or rejects it) is not below the level stored before.
\<close>

theorem level_ratchet:
  "(isValid (validateNewMatch now oneYearAgo matchData playerData)
      \<and> distinct (map pd_id playerData) \<and> distinct (map p_id (players s))
      \<and> playerInfo \<in> set playerData \<and> getPlayer s (pd_id playerInfo) = Some p
    \<longrightarrow> (\<exists>p'. getPlayer (snd (recordMatch env clk uuid now oneYearAgo matchData playerData s))
                  (pd_id playerInfo) = Some p'
            \<and> p_level p' = (if pd_level playerInfo \<noteq> None
                               \<and> (p_level p = None \<or> the (pd_level playerInfo) > the (p_level p))
                             then pd_level playerInfo else p_level p)))
   \<and> (distinct (map p_id (players s)) \<and> getPlayer s k = Some q
    \<longrightarrow> (\<exists>q'. getPlayer (snd (recordMatch env clk uuid now oneYearAgo matchData playerData s)) k
                  = Some q'
            \<and> levelLe (p_level q) (p_level q')))"
proof (intro conjI impI)
  assume a: "isValid (validateNewMatch now oneYearAgo matchData playerData)
      \<and> distinct (map pd_id playerData) \<and> distinct (map p_id (players s))
      \<and> playerInfo \<in> set playerData \<and> getPlayer s (pd_id playerInfo) = Some p"
  let ?s1 = "foldl (ensurePlayer env clk) s playerData"
  define s3 where "s3 = persistMatch env clk uuid matchData playerData s"
  have s3: "players s3 = players ?s1"
    by (simp add: s3_def players_persistMatch)
  have r: "snd (recordMatch env clk uuid now oneYearAgo matchData playerData s)
        = snd (recalculatePlayerStats env (atRecalculation clk) s3)"
    using a by (simp add: s3_def snd_recordMatch)
  from a foldl_ensurePlayer_existing[of playerData playerInfo s p env clk]
  obtain p1 where p1: "getPlayer ?s1 (pd_id playerInfo) = Some p1"
    "p_level p1 = (if pd_level playerInfo \<noteq> None
                               \<and> (p_level p = None \<or> the (pd_level playerInfo) > the (p_level p))
                             then pd_level playerInfo else p_level p)"
    by blast
  have d3: "distinct (map p_id (players s3))"
    using a by (simp add: s3 distinct_foldl_ensurePlayer)
  have g3: "getPlayer s3 (pd_id playerInfo) = Some p1"
    using p1(1) getPlayer_players[OF s3] by simp
  from recalculate_getPlayer_level[OF d3 g3, of env "atRecalculation clk"] p1(2)
  show "\<exists>p'. getPlayer (snd (recordMatch env clk uuid now oneYearAgo matchData playerData s))
                  (pd_id playerInfo) = Some p'
            \<and> p_level p' = (if pd_level playerInfo \<noteq> None
                               \<and> (p_level p = None \<or> the (pd_level playerInfo) > the (p_level p))
                             then pd_level playerInfo else p_level p)"
    by (simp only: r)
next
  assume a: "distinct (map p_id (players s)) \<and> getPlayer s k = Some q"
  let ?r = "snd (recordMatch env clk uuid now oneYearAgo matchData playerData s)"
  show "\<exists>q'. getPlayer ?r k = Some q' \<and> levelLe (p_level q) (p_level q')"
  proof (cases "isValid (validateNewMatch now oneYearAgo matchData playerData)")
    case False
    then have "?r = s"
      by (simp add: recordMatch_def Let_def)
    with a show ?thesis by simp
  next
    case True
    let ?s1 = "foldl (ensurePlayer env clk) s playerData"
    define s3 where "s3 = persistMatch env clk uuid matchData playerData s"
    have s3: "players s3 = players ?s1"
      by (simp add: s3_def players_persistMatch)
    have r: "?r = snd (recalculatePlayerStats env (atRecalculation clk) s3)"
      using True by (simp add: s3_def snd_recordMatch)
    from a foldl_ensurePlayer_mono[of s k q env clk playerData]
    obtain q1 where q1: "getPlayer ?s1 k = Some q1" "levelLe (p_level q) (p_level q1)"
      by blast
    have d3: "distinct (map p_id (players s3))"
      using a by (simp add: s3 distinct_foldl_ensurePlayer)
    have g3: "getPlayer s3 k = Some q1"
      using q1(1) getPlayer_players[OF s3] by simp
    from recalculate_getPlayer_level[OF d3 g3, of env "atRecalculation clk"] q1(2)
    show ?thesis
      by (auto simp only: r)
  qed
qed

lemma set_putByKey: "set (putByKey key x xs) \<subseteq> insert x (set xs)"
  by (auto simp: putByKey_def)

lemma matchPlayers_savePlayer' [simp]: "matchPlayers (savePlayer env x s) = matchPlayers s"
  by (simp add: savePlayer_def)

lemma matchPlayers_ensurePlayer [simp]: "matchPlayers (ensurePlayer env clk s info) = matchPlayers s"
  by (simp add: ensurePlayer_def createPlayer_def split: option.splits)

lemma matchPlayers_foldl_ensurePlayer [simp]:
  "matchPlayers (foldl (ensurePlayer env clk) s pds) = matchPlayers s"
  by (induction pds arbitrary: s) simp_all

lemma matchPlayers_saveMatch [simp]: "matchPlayers (saveMatch env m s) = matchPlayers s"
  by (simp add: saveMatch_def Let_def)

lemma entries_foldl_saveMatchPlayer:
  "mp \<in> set (matchPlayers (foldl (\<lambda>s e. saveMatchPlayer env e s) s es))
     \<Longrightarrow> mp \<in> set (matchPlayers s)
         \<or> (\<exists>e \<in> set es. matchId mp = matchId e \<and> playerId mp = playerId e)"
proof (induction es arbitrary: s)
  case Nil
  then show ?case by simp
next
  case (Cons e es)
  from Cons.IH[OF Cons.prems[simplified]]
  have "mp \<in> set (matchPlayers (saveMatchPlayer env e s))
        \<or> (\<exists>e \<in> set es. matchId mp = matchId e \<and> playerId mp = playerId e)" .
  moreover have "mp \<in> set (matchPlayers s) \<or> (matchId mp = matchId e \<and> playerId mp = playerId e)"
    if "mp \<in> set (matchPlayers (saveMatchPlayer env e s))"
  proof -
    obtain e' where e': "matchPlayers (saveMatchPlayer env e s) = putByKey mp_id e' (matchPlayers s)"
      "matchId e' = matchId e" "playerId e' = playerId e"
      by (cases "mp_deviceId e = None \<or> mp_deviceId e = Some []")
         (auto simp: saveMatchPlayer_def Let_def)
    from that e'(1) set_putByKey[of mp_id e' "matchPlayers s"]
    have "mp = e' \<or> mp \<in> set (matchPlayers s)"
      by auto
    with e'(2,3) show ?thesis by auto
  qed
  ultimately show ?case by auto
qed

lemma matchId_newEntries: "e \<in> set (newEntries env uuid mid pds) \<Longrightarrow> matchId e = mid"
  by (auto simp: newEntries_def newEntry_def)

lemma entries_persistMatch:
  assumes "mp \<in> set (matchPlayers (persistMatch env clk uuid matchData pds s))"
  shows "mp \<in> set (matchPlayers s) \<or> matchId mp = uuid 0"
proof -
  from assms entries_foldl_saveMatchPlayer[of mp env
      "saveMatch env (newMatch env (uuid 0) matchData pds) (foldl (ensurePlayer env clk) s pds)"
      "newEntries env uuid (uuid 0) pds"]
  have "mp \<in> set (matchPlayers s)
      \<or> (\<exists>e \<in> set (newEntries env uuid (uuid 0) pds). matchId mp = matchId e \<and> playerId mp = playerId e)"
    by (simp add: persistMatch_def Let_def newMatch_def)
  then show ?thesis
    by (auto dest: matchId_newEntries)
qed

lemma foldl_ensurePlayer_exists:
  "info \<in> set pds \<Longrightarrow> \<exists>p. getPlayer (foldl (ensurePlayer env clk) s pds) (pd_id info) = Some p"
proof (induction pds arbitrary: s)
  case Nil
  then show ?case by simp
next
  case (Cons a pds)
  show ?case
  proof (cases "info \<in> set pds")
    case True
    from Cons.IH[OF True] show ?thesis by simp
  next
    case False
    with Cons.prems have a: "a = info" by simp
    have "\<exists>p. getPlayer (ensurePlayer env clk s info) (pd_id info) = Some p"
    proof (cases "getPlayer s (pd_id info)")
      case None
      then show ?thesis
        by (simp add: ensurePlayer_def createPlayer_def getPlayer_savePlayer newPlayer_def)
    next
      case (Some p)
      from ensurePlayer_existing[OF Some] show ?thesis by blast
    qed
    then obtain p where "getPlayer (ensurePlayer env clk s info) (pd_id info) = Some p" ..
    from foldl_ensurePlayer_mono[OF this, of env clk pds] show ?thesis
      by (auto simp: a)
  qed
qed

lemma recalculate_frame_store:
  "matches (snd (recalculatePlayerStats env c s)) = matches s"
  "matchPlayers (snd (recalculatePlayerStats env c s)) = matchPlayers s"
  by (cases rule: recalculate_cases[of env s c]; simp)+

lemma recalculate_getPlayer_exists:
  assumes "getPlayer s k = Some p"
  shows "\<exists>p'. getPlayer (snd (recalculatePlayerStats env c s)) k = Some p'"
proof (cases rule: recalculate_cases[of env s c])
  case (thrown e)
  with assms show ?thesis by simp
next
  case (saved st)
  have "getPlayer (snd (recalculatePlayerStats env c s)) k
      = map_option (applyAll (written env c st) (savedPrefix st (players s))) (getPlayer s k)"
    unfolding getPlayer_def saved(2) by (simp add: find_map_same_id)
  with assms show ?thesis by simp
qed

lemma no_entry_not_takesPart:
  "\<forall>mp \<in> set (matchPlayers s). playerId mp \<noteq> pid \<Longrightarrow> \<not> takesPart s pid"
  by (auto simp: takesPart_iff getMatchPlayers_def)

lemma recalculate_idle:
  assumes run: "recalculatePlayerStats env c s = (Inr (), s')"
    and p: "getPlayer s pid = Some p"
    and idle: "\<not> takesPart s pid"
  shows "\<exists>p'. getPlayer s' pid = Some p'
    \<and> ratingState p' = (Some (r_mu (rating_default env)), Some (r_sigma (rating_default env)),
         Some (ordinal_of env (rating_default env)),
         js_round ((ordinal_of env (rating_default env) + 25) * 40 + 200), 0, 0, 0)"
proof -
  let ?ms = "js_sort (\<lambda>a b. date a - date b) (matches s)"
  from run obtain st where
    pm: "processMatches env s ?ms (initialReplay env (players s)) = Inr st"
    and s': "s' = s\<lparr>players := map (applyAll (written env c st) (players s)) (players s)\<rparr>"
    by (rule recalculate_success)
  from getPlayer_Some[OF p] have pin: "p \<in> set (players s)" and pid: "p_id p = pid"
    by simp_all
  then have pidin: "pid \<in> p_id ` set (players s)"
    by auto
  have "getPlayer s' pid = map_option (applyAll (written env c st) (players s)) (getPlayer s pid)"
    unfolding getPlayer_def s' by (simp add: find_map_same_id)
  then have g: "getPlayer s' pid = Some (applyAll (written env c st) (players s) p)"
    by (simp add: p)
  have rs: "ratingState (applyAll (written env c st) (players s) p) = ratingOutput env st pid"
    using pin pid by (auto simp: ratingState_applyAll)
  from idle have "\<forall>m \<in> set ?ms. \<not> (replayed s m \<and> pid \<in> playerId ` set (getMatchPlayers s (m_id m)))"
    by (simp add: takesPart_iff set_js_sort)
  from processMatches_absent[OF pm this] initialReplay_lookup[OF pidin, of env]
  have "playerStatsMap st pid = Some \<lparr>ps_totalGames = 0, ps_wins = 0, ps_losses = 0\<rparr>"
    and "playerRatings st pid = Some (rating_default env)"
    by simp_all
  then have "ratingOutput env st pid = (Some (r_mu (rating_default env)), Some (r_sigma (rating_default env)),
         Some (ordinal_of env (rating_default env)),
         js_round ((ordinal_of env (rating_default env) + 25) * 40 + 200), 0, 0, 0)"
    by (simp add: ratingOutput_def Let_def)
  with g rs show ?thesis by simp
qed

lemma recordMatch_success:
  assumes "recordMatch env clk uuid now oneYearAgo matchData playerData s = (Inr mid, s1)"
  shows "isValid (validateNewMatch now oneYearAgo matchData playerData)"
    and "mid = uuid 0"
    and "s1 = snd (recalculatePlayerStats env (atRecalculation clk)
                   (persistMatch env clk uuid matchData playerData s))"
  using assms
  by (auto simp: recordMatch_def Let_def split: if_splits prod.splits sum.splits)

lemma deleteMatch_success:
  assumes "deleteMatch env c mid s = (Inr (), s')"
  shows "recalculatePlayerStats env c (deleteMatchAndPlayers mid (getMatchPlayers s mid) s) = (Inr (), s')"
  using assms by (auto simp: deleteMatch_def split: option.splits)

lemma entries_after_delete:
  assumes "mp \<in> set (matchPlayers (deleteMatchAndPlayers mid (getMatchPlayers s mid) s))"
  shows "mp \<in> set (matchPlayers s) \<and> matchId mp \<noteq> mid"
  using assms by (auto simp: deleteMatchAndPlayers_def getMatchPlayers_def)

lemma ratingState_newPlayer:
  "ratingState (newPlayer env clk pid name)
     = (Some (r_mu (rating_default env)), Some (r_sigma (rating_default env)),
        Some (ordinal_of env (rating_default env)), INITIAL_ELO, 0, 0, 0)"
  by (simp add: ratingState_def newPlayer_def)

text \<open>
  Claim C7. Let \<^verbatim>\<open>recordMatch\<close> record a match among participants with pairwise distinct ids
  and return its id, and let \<^verbatim>\<open>deleteMatch\<close> of that id return normally. Then every
  participant who had no participation before the recording is stored, after the deletion,
  with the values a new player is created with: default \<open>mu\<close> and \<open>sigma\<close>, their ordinal,
  \<open>elo\<close> 1200 and no games, wins or losses. The library's \<^verbatim>\<open>ordinal(rating())\<close> is taken to be
  0, as it is for the defaults of openskill (\<open>mu\<close> 25, \<open>sigma\<close> 25/3, ordinal \<open>mu - 3 sigma\<close>).
\<close>

theorem delete_restores_defaults:
  assumes rec: "recordMatch env clk uuid now oneYearAgo matchData playerData s = (Inr mid, s1)"
    and del: "deleteMatch env readClock mid s1 = (Inr (), s2)"
    and dist: "distinct (map pd_id playerData)"
    and touched: "playerInfo \<in> set playerData"
    and fresh: "\<forall>mp \<in> set (matchPlayers s). playerId mp \<noteq> pd_id playerInfo"
    and lib: "ordinal_of env (rating_default env) = 0"
  shows "\<exists>p. getPlayer s2 (pd_id playerInfo) = Some p
     \<and> ratingState p = ratingState (newPlayer env clk (pd_id playerInfo) (pd_id playerInfo))
     \<and> ratingState p = (Some (r_mu (rating_default env)), Some (r_sigma (rating_default env)),
                         Some 0, INITIAL_ELO, 0, 0, 0)"
proof -
  let ?pid = "pd_id playerInfo"
  let ?P = "persistMatch env clk uuid matchData playerData s"
  let ?D = "deleteMatchAndPlayers mid (getMatchPlayers s1 mid) s1"
  note r = recordMatch_success[OF rec]
  have mp1: "matchPlayers s1 = matchPlayers ?P"
    by (simp add: r(3) recalculate_frame_store)
  from foldl_ensurePlayer_exists[OF touched, of env clk s]
  obtain p0 where "getPlayer ?P ?pid = Some p0"
    using getPlayer_players[OF players_persistMatch, of env clk uuid matchData playerData s ?pid]
    by auto
  from recalculate_getPlayer_exists[OF this, of env "atRecalculation clk"]
  obtain p1 where p1: "getPlayer s1 ?pid = Some p1"
    by (auto simp: r(3))
  have "players ?D = players s1"
    by (simp add: deleteMatchAndPlayers_def)
  from getPlayer_players[OF this] p1 have pD: "getPlayer ?D ?pid = Some p1"
    by simp
  have "\<forall>mp \<in> set (matchPlayers ?D). playerId mp \<noteq> ?pid"
  proof
    fix mp assume "mp \<in> set (matchPlayers ?D)"
    from entries_after_delete[OF this] have "mp \<in> set (matchPlayers ?P)" "matchId mp \<noteq> uuid 0"
      by (simp_all add: mp1 r(2))
    with entries_persistMatch[of mp env clk uuid matchData playerData s]
    have "mp \<in> set (matchPlayers s)" by auto
    with fresh show "playerId mp \<noteq> ?pid" by blast
  qed
  then have idle: "\<not> takesPart ?D ?pid"
    by (rule no_entry_not_takesPart)
  from recalculate_idle[OF deleteMatch_success[OF del] pD idle]
  obtain p where p: "getPlayer s2 ?pid = Some p"
    "ratingState p = (Some (r_mu (rating_default env)), Some (r_sigma (rating_default env)),
         Some (ordinal_of env (rating_default env)),
         js_round ((ordinal_of env (rating_default env) + 25) * 40 + 200), 0, 0, 0)"
    by blast
  have "js_round ((ordinal_of env (rating_default env) + 25) * 40 + 200) = INITIAL_ELO"
    by (simp add: lib js_round_def INITIAL_ELO_def)
  with p show ?thesis
    by (simp add: ratingState_newPlayer lib)
qed

lemmas record_defs =
  recordMatch_def persistMatch_def newMatch_def newEntries_def newEntry_def ensurePlayer_def
  createPlayer_def newPlayer_def saveMatch_def saveMatchPlayer_def validateNewMatch_def
  validateMatchEdit_def teamErrors_def heroErrors_def heroUsage_def playerErrors_def
  negativeError_def sampleRoster_def sampleInfo_def sampleMatchData_def sampleClocks_def
  sampleUuid_def getPlayer_def INITIAL_ELO_def enumerate_eq_zip

lemma sample_valid: "isValid (validateNewMatch 2000 500 sampleMatchData sampleRoster)"
  by (simp add: record_defs Let_def)

lemma sample_recorded:
  "fst (recordMatch sampleEnv sampleClocks sampleUuid 2000 500 sampleMatchData sampleRoster sampleStore)
     = Inr ''uuid-0''"
  by (simp add: record_defs sample_defs digit_char_def)

lemma sample_deleted:
  "fst (deleteMatch sampleEnv sampleClock ''uuid-0''
         (snd (recordMatch sampleEnv sampleClocks sampleUuid 2000 500 sampleMatchData sampleRoster sampleStore)))
     = Inr ()"
  by (simp add: record_defs sample_defs digit_char_def deleteMatch_def deleteMatchAndPlayers_def
      getMatch_def)

text \<open>Claim C8 at the sample recording: the stored level 1 of a participant becomes 5.\<close>

theorem level_ratchet_witness:
  "isValid (validateNewMatch 2000 500 sampleMatchData sampleRoster)
   \<and> distinct (map pd_id sampleRoster) \<and> distinct (map p_id (players sampleStore))
   \<and> getPlayer sampleStore ''cy'' = Some (samplePlayer ''cy'' 1200)
   \<and> p_level (samplePlayer ''cy'' 1200) = Some 1
   \<and> (\<exists>p'. getPlayer (snd (recordMatch sampleEnv sampleClocks sampleUuid 2000 500 sampleMatchData
                 sampleRoster sampleStore)) ''cy'' = Some p' \<and> p_level p' = Some 5)
   \<and> (\<exists>q'. getPlayer (snd (recordMatch sampleEnv sampleClocks sampleUuid 2000 500 sampleMatchData
                 sampleRoster sampleStore)) ''ann'' = Some q' \<and> levelLe (Some 1) (p_level q'))"
proof -
  have v: "isValid (validateNewMatch 2000 500 sampleMatchData sampleRoster)"
    by (rule sample_valid)
  have d: "distinct (map pd_id sampleRoster)" "distinct (map p_id (players sampleStore))"
    by (simp_all add: sampleRoster_def sampleInfo_def sampleStore_def sample_fields)
  have m: "sampleInfo ''cy'' Titans 3 (Some 5) \<in> set sampleRoster"
    by (simp add: sampleRoster_def)
  have g: "getPlayer sampleStore ''cy'' = Some (samplePlayer ''cy'' 1200)"
    "getPlayer sampleStore ''ann'' = Some (samplePlayer ''ann'' 1200)"
    by (simp_all add: getPlayer_def sampleStore_def sample_fields)
  have i: "pd_id (sampleInfo ''cy'' Titans 3 (Some 5)) = ''cy''"
    "pd_level (sampleInfo ''cy'' Titans 3 (Some 5)) = Some 5"
    by (simp_all add: sampleInfo_def)
  note T = level_ratchet[of 2000 500 sampleMatchData sampleRoster sampleStore
      "sampleInfo ''cy'' Titans 3 (Some 5)" "samplePlayer ''cy'' 1200" sampleEnv sampleClocks sampleUuid
      "''ann''" "samplePlayer ''ann'' 1200"]
  from T v d m g have 1: "\<exists>p'. getPlayer (snd (recordMatch sampleEnv sampleClocks sampleUuid 2000 500 sampleMatchData
                 sampleRoster sampleStore)) ''cy'' = Some p' \<and> p_level p' = Some 5"
    by (simp add: i sample_fields)
  from T d g have 2: "\<exists>q'. getPlayer (snd (recordMatch sampleEnv sampleClocks sampleUuid 2000 500 sampleMatchData
                 sampleRoster sampleStore)) ''ann'' = Some q' \<and> levelLe (Some 1) (p_level q')"
    by (simp add: sample_fields)
  from v d g(1) 1 2 show ?thesis
    by (simp add: sample_fields)
qed

text \<open>Claim C7 at the sample recording, for a participant created by it.\<close>

theorem delete_restores_defaults_witness:
  "recordMatch sampleEnv sampleClocks sampleUuid 2000 500 sampleMatchData sampleRoster sampleStore
     = (Inr ''uuid-0'',
        snd (recordMatch sampleEnv sampleClocks sampleUuid 2000 500 sampleMatchData sampleRoster sampleStore))
   \<and> fst (deleteMatch sampleEnv sampleClock ''uuid-0''
        (snd (recordMatch sampleEnv sampleClocks sampleUuid 2000 500 sampleMatchData sampleRoster sampleStore)))
     = Inr ()
   \<and> distinct (map pd_id sampleRoster)
   \<and> sampleInfo ''dee'' Titans 4 None \<in> set sampleRoster
   \<and> ''dee'' \<notin> set (map playerId (matchPlayers sampleStore))
   \<and> ordinal_of sampleEnv (rating_default sampleEnv) = 0
   \<and> (\<exists>p. getPlayer (snd (deleteMatch sampleEnv sampleClock ''uuid-0''
        (snd (recordMatch sampleEnv sampleClocks sampleUuid 2000 500 sampleMatchData sampleRoster sampleStore))))
          ''dee'' = Some p
        \<and> ratingState p = (Some 25, Some (25 / 3), Some 0, 1200, 0, 0, 0))"
proof -
  let ?R = "recordMatch sampleEnv sampleClocks sampleUuid 2000 500 sampleMatchData sampleRoster sampleStore"
  let ?D = "deleteMatch sampleEnv sampleClock ''uuid-0'' (snd ?R)"
  have r: "?R = (Inr ''uuid-0'', snd ?R)"
    using sample_recorded by (simp add: prod_eq_iff)
  have dl: "?D = (Inr (), snd ?D)"
    using sample_deleted by (simp add: prod_eq_iff)
  have d: "distinct (map pd_id sampleRoster)"
    by (simp add: sampleRoster_def sampleInfo_def)
  have m: "sampleInfo ''dee'' Titans 4 None \<in> set sampleRoster"
    by (simp add: sampleRoster_def)
  have f: "\<forall>mp \<in> set (matchPlayers sampleStore). playerId mp \<noteq> pd_id (sampleInfo ''dee'' Titans 4 None)"
    by (simp add: sampleStore_def sampleEntry_def sampleInfo_def)
  have f': "''dee'' \<notin> set (map playerId (matchPlayers sampleStore))"
    by (simp add: sampleStore_def sampleEntry_def)
  have l: "ordinal_of sampleEnv (rating_default sampleEnv) = 0"
    by (simp add: sampleEnv_def)
  have vals: "r_mu (rating_default sampleEnv) = 25" "r_sigma (rating_default sampleEnv) = 25 / 3"
    "pd_id (sampleInfo ''dee'' Titans 4 None) = ''dee''"
    by (simp_all add: sampleEnv_def sampleInfo_def)
  from delete_restores_defaults[OF r dl d m f l]
  have "\<exists>p. getPlayer (snd ?D) ''dee'' = Some p
        \<and> ratingState p = (Some 25, Some (25 / 3), Some 0, 1200, 0, 0, 0)"
    unfolding vals INITIAL_ELO_def by blast
  with r sample_deleted d m f' l show ?thesis
    by blast
qed

section \<open>Properties of the win probability\<close>

lemma sqrt_625_9: "sqrt (625 / 9) = 25 / 3"
  by (rule real_sqrt_unique) (simp_all add: power2_eq_square)

lemma ratedPlayers_cache:
  "ensureRatingsInitialized sampleEnv ratedPlayers emptyObject
     = \<lparr>own = [(''ann'', \<lparr>r_mu = 124 / 3, r_sigma = 25 / 6\<rparr>), (''bob'', \<lparr>r_mu = 25, r_sigma = 25 / 6\<rparr>)],
        proto = None\<rparr>"
  by (simp add: ensureRatingsInitialized_def ratedPlayers_def ratedPlayer_def putByKey_def
      emptyObject_def setRating_def)

lemma ann_bob_parameters:
  "teamRatings sampleEnv (ensureRatingsInitialized sampleEnv ratedPlayers emptyObject) [''ann'']
     = [Some \<lparr>r_mu = 124 / 3, r_sigma = 25 / 6\<rparr>]"
  "teamRatings sampleEnv (ensureRatingsInitialized sampleEnv ratedPlayers emptyObject) [''bob'']
     = [Some \<lparr>r_mu = 25, r_sigma = 25 / 6\<rparr>]"
  by (simp_all add: ratedPlayers_cache teamRatings_def getRating_def)

lemma ann_bob_delta:
  "deltaMu [Some \<lparr>r_mu = 124 / 3, r_sigma = 25 / 6\<rparr>] [Some \<lparr>r_mu = 25, r_sigma = 25 / 6\<rparr>] = Some (49 / 3)"
  "deltaPerformanceSigma [Some \<lparr>r_mu = 124 / 3, r_sigma = 25 / 6\<rparr>] [Some \<lparr>r_mu = 25, r_sigma = 25 / 6\<rparr>]
     = Some (25 / 3)"
  "\<exists>s. deltaSkillSigma [Some \<lparr>r_mu = 124 / 3, r_sigma = 25 / 6\<rparr>] [Some \<lparr>r_mu = 25, r_sigma = 25 / 6\<rparr>]
     = Some s"
  by (simp_all add: deltaMu_def teamMu_def deltaPerformanceSigma_def performanceVariance_def
      skillVariance_def deltaSkillSigma_def num_add_def num_sub_def num_sqrt_def TRUESKILL_BETA_def
      power2_eq_square sqrt_625_9)

lemma sampleCdf_returns:
  "s \<noteq> 0 \<Longrightarrow> \<exists>p. sampleCdf 0 (Some s) (Some x) = Inr (Some p)"
  by (simp add: sampleCdf_def)

text \<open>
  Claim C3 fails on the code at a win probability of 0.975, the value of the distribution at
  1.96 standard deviations: \<^verbatim>\<open>team2Probability\<close> is not the complement of
  \<^verbatim>\<open>team1Probability\<close> but \<^verbatim>\<open>Math.round\<close> of the complementary probability, a half is rounded
  up on both sides, and the two point estimates are 98 and 3.
\<close>

theorem win_probability_sum_101:
  "(case calculateWinProbabilityWithCI sampleEnv sampleCdf ratedPlayers emptyObject [''ann''] [''bob''] of
      Inl e \<Rightarrow> False
    | Inr r \<Rightarrow> team1Probability r = Some 98 \<and> team2Probability r = Some 3)"
proof -
  obtain s where s: "deltaSkillSigma [Some \<lparr>r_mu = 124 / 3, r_sigma = 25 / 6\<rparr>] [Some \<lparr>r_mu = 25, r_sigma = 25 / 6\<rparr>]
     = Some s"
    using ann_bob_delta(3) by blast
  have w: "sampleCdf 0 (Some (25 / 3)) (Some (49 / 3)) = Inr (Some (39 / 40))"
    by (simp add: sampleCdf_def)
  obtain lo where lo: "sampleCdf 0 (Some (25 / 3)) (Some (49 / 3 - 196 / 100 * s)) = Inr (Some lo)"
    using sampleCdf_returns[of "25 / 3"] by auto
  obtain hi where hi: "sampleCdf 0 (Some (25 / 3)) (Some (49 / 3 + 196 / 100 * s)) = Inr (Some hi)"
    using sampleCdf_returns[of "25 / 3"] by auto
  show ?thesis
    using lo hi
    by (simp add: calculateWinProbabilityWithCI_def ann_bob_parameters ann_bob_delta(1,2) s w
        num_mul_def num_sub_def num_add_def num_round_def js_round_def Let_def)
qed

text \<open>Two empty rosters, and a roster that names a property of \<^verbatim>\<open>Object.prototype\<close>.\<close>

lemma empty_rosters_throw:
  "calculateWinProbabilityWithCI sampleEnv sampleCdf ratedPlayers emptyObject [] [] = Inl TypeError"
  by (simp add: calculateWinProbabilityWithCI_def teamRatings_def deltaMu_def teamMu_def
      deltaPerformanceSigma_def performanceVariance_def skillVariance_def num_add_def num_sub_def
      num_sqrt_def sampleCdf_def Let_def)

lemma inherited_key_throws:
  "calculateWinProbabilityWithCI sampleEnv sampleCdf ratedPlayers emptyObject [''constructor''] [''bob'']
     = Inl TypeError"
  by (simp add: calculateWinProbabilityWithCI_def ratedPlayers_cache teamRatings_def getRating_def
      objectProperty_def objectPrototypeKeys_def deltaMu_def teamMu_def
      deltaPerformanceSigma_def performanceVariance_def skillVariance_def num_add_def num_sub_def
      num_sqrt_def sampleCdf_def Let_def)

end
